theory Spec2Isabelle
  imports Main "HOL-Library.AList"
begin

section \<open>Python strings\<close>

text \<open>
  Strings are lists of characters. A \<^typ>\<open>char\<close> stands for one code point below 256;
  code points above that are outside the model.
\<close>

definition py_isspace :: "char \<Rightarrow> bool" where
  \<comment> \<open>the characters \<open>str.strip()\<close> removes, restricted to code points below 256\<close>
  "py_isspace c =
     (let n = (of_char c :: nat)
      in (9 \<le> n \<and> n \<le> 13) \<or> (28 \<le> n \<and> n \<le> 32) \<or> n = 133 \<or> n = 160)"

definition lstrip :: "string \<Rightarrow> string" where
  "lstrip s = dropWhile py_isspace s"

definition rstrip :: "string \<Rightarrow> string" where
  "rstrip s = rev (dropWhile py_isspace (rev s))"

definition strip :: "string \<Rightarrow> string" where
  "strip s = lstrip (rstrip s)"

fun startswith :: "string \<Rightarrow> string \<Rightarrow> bool" where
  "startswith s [] = True"
| "startswith [] (p # ps) = False"
| "startswith (c # cs) (p # ps) = (c = p \<and> startswith cs ps)"

definition endswith :: "string \<Rightarrow> string \<Rightarrow> bool" where
  "endswith s suf = startswith (rev s) (rev suf)"

definition replace_char :: "char \<Rightarrow> char \<Rightarrow> string \<Rightarrow> string" where
  \<comment> \<open>\<open>s.replace(a, b)\<close> for one-character \<open>a\<close> and \<open>b\<close>\<close>
  "replace_char a b s = map (\<lambda>c. if c = a then b else c) s"

fun join_with :: "string \<Rightarrow> string list \<Rightarrow> string" where
  \<comment> \<open>\<open>sep.join(xs)\<close>\<close>
  "join_with sep [] = []"
| "join_with sep [x] = x"
| "join_with sep (x # y # ys) = x @ sep @ join_with sep (y # ys)"

definition digit :: "nat \<Rightarrow> char" where
  "digit d = ''0123456789'' ! d"

fun show_nat :: "nat \<Rightarrow> string" where
  "show_nat n = (if n < 10 then [digit n] else show_nat (n div 10) @ [digit (n mod 10)])"

declare show_nat.simps [simp del]

definition show_int :: "int \<Rightarrow> string" where
  \<comment> \<open>\<open>f"{i}"\<close> for a Python int\<close>
  "show_int i = (if i < 0 then CHR ''-'' # show_nat (nat (- i)) else show_nat (nat i))"

subsection \<open>shlex.quote\<close>

definition shlex_safe :: "char \<Rightarrow> bool" where
  \<comment> \<open>the complement of \<open>[^\w@%+=:,./-]\<close> under \<open>re.ASCII\<close>\<close>
  "shlex_safe c =
     (let n = (of_char c :: nat)
      in (48 \<le> n \<and> n \<le> 57) \<or> (65 \<le> n \<and> n \<le> 90) \<or> (97 \<le> n \<and> n \<le> 122)
         \<or> c \<in> set ''_@%+=:,./-'')"

definition shlex_quote :: "string \<Rightarrow> string" where
  "shlex_quote s =
     (if s = [] then [CHR 0x27, CHR 0x27]
      else if list_all shlex_safe s then s
      else [CHR 0x27]
           @ concat (map (\<lambda>c. if c = CHR 0x27
                                then [CHR 0x27, CHR 0x22, CHR 0x27, CHR 0x22, CHR 0x27]
                                else [c]) s)
           @ [CHR 0x27])"

definition render_command :: "string list \<Rightarrow> string" where
  \<comment> \<open>\<open>" ".join(shlex.quote(arg) for arg in cmd)\<close>\<close>
  "render_command cmd = join_with '' '' (map shlex_quote cmd)"

section \<open>POSIX paths\<close>

text \<open>
  \<open>os.path.join\<close> and the \<open>pathlib\<close> accessors the program calls, in their POSIX
  flavour (the tool targets macOS).
\<close>

fun split_sep :: "string \<Rightarrow> string list" where
  \<comment> \<open>\<open>s.split('/')\<close>\<close>
  "split_sep [] = [[]]"
| "split_sep (c # cs) =
     (if c = CHR ''/'' then [] # split_sep cs
      else (case split_sep cs of [] \<Rightarrow> [[c]] | p # ps \<Rightarrow> (c # p) # ps))"

definition path_parts :: "string \<Rightarrow> string list" where
  \<comment> \<open>the components after the root: empty and \<open>.\<close> components are dropped\<close>
  "path_parts s = filter (\<lambda>p. p \<noteq> [] \<and> p \<noteq> ''.'') (split_sep s)"

definition path_root :: "string \<Rightarrow> string" where
  "path_root s =
     (if startswith s ''//'' \<and> \<not> startswith s ''///'' then ''//''
      else if startswith s ''/'' then ''/''
      else [])"

definition path_name :: "string \<Rightarrow> string" where
  \<comment> \<open>\<open>Path(s).name\<close>\<close>
  "path_name s = (case rev (path_parts s) of [] \<Rightarrow> [] | p # _ \<Rightarrow> p)"

definition path_stem :: "string \<Rightarrow> string" where
  \<comment> \<open>\<open>Path(s).stem\<close> (Python 3.11 to 3.13): the name up to its last dot, unless that
      dot is the first or the last character of the name\<close>
  "path_stem s =
     (let name = path_name s;
          stem = rev (tl (dropWhile (\<lambda>c. c \<noteq> CHR ''.'') (rev name)));
          suffix = rev (takeWhile (\<lambda>c. c \<noteq> CHR ''.'') (rev name))
      in if CHR ''.'' \<in> set name \<and> stem \<noteq> [] \<and> suffix \<noteq> [] then stem else name)"

definition path_parent :: "string \<Rightarrow> string" where
  \<comment> \<open>\<open>str(Path(s).parent)\<close>\<close>
  "path_parent s =
     (let root = path_root s; ps = butlast (path_parts s)
      in if root = [] \<and> ps = [] then ''.'' else root @ join_with ''/'' ps)"

definition path_join :: "string \<Rightarrow> string \<Rightarrow> string" where
  \<comment> \<open>\<open>os.path.join(a, b)\<close>\<close>
  "path_join a b =
     (if startswith b ''/'' then b
      else if a = [] \<or> endswith a ''/'' then a @ b
      else a @ ''/'' @ b)"

section \<open>The filesystem\<close>

text \<open>
  The filesystem is the finite table of the path strings that resolve to something, each
  with what it resolves to. Path resolution itself (normalisation, links) belongs to the
  operating system and is taken as given by the table.
\<close>

datatype node = Directory | RegularFile

type_synonym filesystem = "(string \<times> node) list"

definition path_exists :: "filesystem \<Rightarrow> string \<Rightarrow> bool" where
  \<comment> \<open>\<open>os.path.exists\<close>\<close>
  "path_exists fs p = (map_of fs p \<noteq> None)"

definition path_isdir :: "filesystem \<Rightarrow> string \<Rightarrow> bool" where
  \<comment> \<open>\<open>os.path.isdir\<close>\<close>
  "path_isdir fs p = (map_of fs p = Some Directory)"

text \<open>
  \<open>os.makedirs(name, exist_ok=True)\<close>, as the library has it, over the table. The table
  is consulted for the names as they are written (no aliasing through \<open>.\<close>, \<open>..\<close>,
  repeated or trailing separators or links), the root directory needs no entry, and
  failures the table cannot show (permissions, a read-only volume) are outside the model.
  The result is the table as the call leaves it and the exception raised, if any.
\<close>

datatype os_error = FileExistsError string | FileNotFoundError string | NotADirectoryError string

definition hex_digit :: "nat \<Rightarrow> char" where
  "hex_digit d = ''0123456789abcdef'' ! d"

definition repr_char :: "char \<Rightarrow> char \<Rightarrow> string" where
  \<comment> \<open>one character of \<open>repr(s)\<close>, for code points below 256\<close>
  "repr_char quote c =
     (let n = (of_char c :: nat)
      in if c = quote \<or> c = CHR 0x5C then [CHR 0x5C, c]
         else if n = 9 then [CHR 0x5C, CHR ''t'']
         else if n = 10 then [CHR 0x5C, CHR ''n'']
         else if n = 13 then [CHR 0x5C, CHR ''r'']
         else if n < 32 \<or> n = 127 \<or> (128 \<le> n \<and> n \<le> 160) \<or> n = 173
         then [CHR 0x5C, CHR ''x'', hex_digit (n div 16), hex_digit (n mod 16)]
         else [c])"

definition py_repr :: "string \<Rightarrow> string" where
  \<comment> \<open>\<open>repr(s)\<close>: double quotes only when \<open>s\<close> holds a single quote and no double quote\<close>
  "py_repr s =
     (let quote = (if CHR 0x27 \<in> set s \<and> CHR 0x22 \<notin> set s then CHR 0x22 else CHR 0x27)
      in [quote] @ concat (map (repr_char quote) s) @ [quote])"

definition str_os_error :: "os_error \<Rightarrow> string" where
  \<comment> \<open>\<open>str(e)\<close>, which is what \<open>f"{e}"\<close> renders\<close>
  "str_os_error e =
     (case e of
        FileExistsError f \<Rightarrow> ''[Errno 17] File exists: '' @ py_repr f
      | FileNotFoundError f \<Rightarrow> ''[Errno 2] No such file or directory: '' @ py_repr f
      | NotADirectoryError f \<Rightarrow> ''[Errno 20] Not a directory: '' @ py_repr f)"

definition posix_split :: "string \<Rightarrow> string \<times> string" where
  \<comment> \<open>\<open>os.path.split\<close>\<close>
  "posix_split p =
     (let head = rev (dropWhile (\<lambda>c. c \<noteq> CHR ''/'') (rev p));
          tail = rev (takeWhile (\<lambda>c. c \<noteq> CHR ''/'') (rev p));
          head = (if head \<noteq> [] \<and> \<not> list_all (\<lambda>c. c = CHR ''/'') head
                  then rev (dropWhile (\<lambda>c. c = CHR ''/'') (rev head))
                  else head)
      in (head, tail))"

definition makedirs_split :: "string \<Rightarrow> string \<times> string" where
  \<comment> \<open>the head and tail \<open>makedirs\<close> works with: split again when the tail is empty\<close>
  "makedirs_split name =
     (let (head, tail) = posix_split name
      in if tail = [] then posix_split head else (head, tail))"

definition mkdir :: "filesystem \<Rightarrow> string \<Rightarrow> string \<Rightarrow> os_error + filesystem" where
  \<comment> \<open>\<open>os.mkdir(name)\<close>, where \<open>parent\<close> is the directory that is to hold the new entry\<close>
  "mkdir fsys name parent =
     (if name = [] then Inl (FileNotFoundError name)
      else if path_exists fsys name then Inl (FileExistsError name)
      else if parent \<noteq> [] \<and> \<not> list_all (\<lambda>c. c = CHR ''/'') parent
              \<and> \<not> path_exists fsys parent then Inl (FileNotFoundError name)
      else if parent \<noteq> [] \<and> \<not> list_all (\<lambda>c. c = CHR ''/'') parent
              \<and> \<not> path_isdir fsys parent then Inl (NotADirectoryError name)
      else Inr (fsys @ [(name, Directory)]))"

lemma posix_split_length: "length (fst (posix_split p)) \<le> length p"
proof -
  have "length (dropWhile (\<lambda>c. c = CHR ''/'') xs) \<le> length xs" for xs :: string
    by (simp add: length_dropWhile_le)
  moreover have "length (dropWhile (\<lambda>c. c \<noteq> CHR ''/'') (rev p)) \<le> length p"
    using length_dropWhile_le [of _ "rev p"] by simp
  ultimately show ?thesis
    by (auto simp add: posix_split_def Let_def intro: order_trans)
qed

lemma posix_split_shorter:
  "snd (posix_split p) \<noteq> [] \<Longrightarrow> length (fst (posix_split p)) < length p"
proof -
  assume t: "snd (posix_split p) \<noteq> []"
  let ?h = "dropWhile (\<lambda>c. c \<noteq> CHR ''/'') (rev p)" and ?t = "takeWhile (\<lambda>c. c \<noteq> CHR ''/'') (rev p)"
  have "length ?t + length ?h = length p"
    using takeWhile_dropWhile_id [of "\<lambda>c. c \<noteq> CHR ''/''" "rev p"]
    by (metis length_append length_rev)
  moreover have "?t \<noteq> []" using t by (simp add: posix_split_def Let_def)
  ultimately have h: "length ?h < length p" by (cases ?t) auto
  have "length (dropWhile (\<lambda>c. c = CHR ''/'') (rev (rev ?h))) \<le> length ?h"
    using length_dropWhile_le [of _ "rev (rev ?h)"] by simp
  with h show ?thesis by (auto simp add: posix_split_def Let_def)
qed

lemma makedirs_split_shorter:
  "snd (makedirs_split name) \<noteq> [] \<Longrightarrow> length (fst (makedirs_split name)) < length name"
proof -
  assume t: "snd (makedirs_split name) \<noteq> []"
  show ?thesis
  proof (cases "snd (posix_split name) = []")
    case True
    then have eq: "makedirs_split name = posix_split (fst (posix_split name))"
      by (simp add: makedirs_split_def split_beta)
    with t have "length (fst (posix_split (fst (posix_split name))))
        < length (fst (posix_split name))"
      by (simp add: posix_split_shorter)
    with posix_split_length [of name] show ?thesis by (simp add: eq)
  next
    case False
    then have "makedirs_split name = posix_split name"
      by (simp add: makedirs_split_def split_beta)
    with False show ?thesis by (simp add: posix_split_shorter)
  qed
qed

function makedirs :: "filesystem \<Rightarrow> string \<Rightarrow> filesystem \<times> os_error option" where
  "makedirs fsys name =
     (let head = fst (makedirs_split name);
          tail = snd (makedirs_split name);
          recurse = (head \<noteq> [] \<and> tail \<noteq> [] \<and> \<not> path_exists fsys head);
          made = (if recurse
                  then (case makedirs fsys head of
                          (fs1, Some (FileExistsError f)) \<Rightarrow> (fs1, None)
                        | r \<Rightarrow> r)
                  else (fsys, None))
      in case made of
           (fs1, Some e) \<Rightarrow> (fs1, Some e)
         | (fs1, None) \<Rightarrow>
             if recurse \<and> tail = ''.'' then (fs1, None)
             else (case mkdir fs1 name head of
                     Inl e \<Rightarrow> (fs1, if path_isdir fs1 name then None else Some e)
                   | Inr fs2 \<Rightarrow> (fs2, None)))"
  by pat_completeness auto
termination
  by (relation "measure (\<lambda>(fsys, name). length name)") (auto simp add: makedirs_split_shorter)

declare makedirs.simps [simp del]

section \<open>Application state\<close>

datatype widget_state = NORMAL | DISABLED

datatype source_type = Hf | Local | File

text \<open>
  A background thread of the application: the closure of \<open>worker\<close> (the command, the
  environment and the output path it captured) and whether the thread is still alive.
\<close>

record task =
  t_cmd :: "string list"
  t_env :: "(string \<times> string) list"
  t_output_path :: string
  t_alive :: bool

text \<open>
  What the external process does, as far as the worker can observe it: creating it raises
  (with the text of the exception), or it emits lines on its merged output stream and
  then either exits with a return code or the read raises. A line is the text the stream
  iteration yields, line terminator included.
\<close>

datatype ending = Exits int | Raises string

datatype process = SpawnFails string | Streams "string list" ending

datatype dialog = Showwarning string string | Showinfo string string | Showerror string string

text \<open>
  The fields of \<open>MLXQuantizeApp\<close> that the conversion logic reads or writes. A log entry
  is the pair of its level and its message; the wall-clock prefix \<open>_log\<close> renders before
  them is left out. \<open>threads\<close> lists every thread the application has started, in start
  order; \<open>worker_thread\<close> refers to one of them by position.
\<close>

record app =
  source_path :: string
  output_base :: string
  auto_timestamp :: bool
  enable_quant :: bool
  q_bits :: string
  q_group :: string
  dtype :: string
  trust_remote :: bool
  hf_offline :: bool
  dry_run :: bool
  current_process :: "process option"
  worker_thread :: "nat option"
  threads :: "task list"
  convert_btn :: widget_state
  stop_btn :: widget_state
  progress_running :: bool
  log_text :: "(string \<times> string) list"
  dialogs :: "dialog list"
  fs :: filesystem

text \<open>What the process inherits from its host: \<open>sys.executable\<close> and \<open>os.environ\<close>.\<close>

record host =
  executable :: string
  environ :: "(string \<times> string) list"

definition app_log :: "string \<Rightarrow> string \<Rightarrow> app \<Rightarrow> app" where
  \<comment> \<open>\<open>_log(message, level)\<close>\<close>
  "app_log message level st = st\<lparr>log_text := log_text st @ [(level, message)]\<rparr>"

definition separator :: string where
  \<comment> \<open>\<open>"=" * 80\<close>\<close>
  "separator = replicate 80 CHR ''=''"

definition initial_app :: "string \<Rightarrow> filesystem \<Rightarrow> app" where
  \<comment> \<open>the state \<open>__init__\<close> leaves, for a home directory and a filesystem\<close>
  "initial_app home fs0 =
     \<lparr>source_path = [], output_base = path_join home ''MLX_Models'', auto_timestamp = True,
      enable_quant = True, q_bits = ''4'', q_group = ''64'', dtype = ''float16'',
      trust_remote = True, hf_offline = False, dry_run = False,
      current_process = None, worker_thread = None, threads = [],
      convert_btn = NORMAL, stop_btn = DISABLED, progress_running = False,
      log_text = [(''INFO'',
        ''Application ready. Ensure mlx-lm is installed: pip install -U mlx-lm'')],
      dialogs = [], fs = fs0\<rparr>"

section \<open>Decimal rendering is injective\<close>

definition digit_value :: "char \<Rightarrow> nat" where
  "digit_value c = of_char c - 48"

definition read_nat :: "string \<Rightarrow> nat" where
  "read_nat s = foldl (\<lambda>a c. 10 * a + digit_value c) 0 s"

lemma digit_value_digit: "d < 10 \<Longrightarrow> digit_value (digit d) = d"
proof -
  assume "d < 10"
  then have "d \<in> {0, 1, 2, 3, 4, 5, 6, 7, 8, 9}" by auto
  then show ?thesis by (auto simp: digit_value_def digit_def)
qed

lemma read_nat_snoc: "read_nat (s @ [c]) = 10 * read_nat s + digit_value c"
  by (simp add: read_nat_def)

lemma read_show_nat: "read_nat (show_nat n) = n"
proof (induction n rule: show_nat.induct)
  case (1 n)
  show ?case
  proof (cases "n < 10")
    case True
    then show ?thesis
      by (simp add: show_nat.simps [of n] read_nat_def digit_value_digit)
  next
    case False
    then have "read_nat (show_nat n)
        = 10 * read_nat (show_nat (n div 10)) + digit_value (digit (n mod 10))"
      by (simp add: show_nat.simps [of n] read_nat_snoc)
    also have "\<dots> = 10 * (n div 10) + n mod 10"
      using False "1.IH" by (simp add: digit_value_digit)
    finally show ?thesis by simp
  qed
qed

lemma show_nat_inj: "show_nat m = show_nat n \<Longrightarrow> m = n"
  by (metis read_show_nat)

section \<open>Conversion logic\<close>

definition detect_source_type :: "filesystem \<Rightarrow> string \<Rightarrow> source_type" where
  "detect_source_type fsys p =
     (let path = strip p
      in if CHR ''/'' \<in> set path \<and> \<not> path_exists fsys path then Hf
         else if path_exists fsys path \<and> path_isdir fsys path then Local
         else if path_exists fsys path
                 \<and> (endswith path ''.safetensors'' \<or> endswith path ''.nemo'') then File
         else Hf)"

definition versioned :: "string \<Rightarrow> nat \<Rightarrow> string" where
  \<comment> \<open>\<open>f"{original_path}_v{counter}"\<close>\<close>
  "versioned original counter = original @ ''_v'' @ show_nat counter"

lemma versioned_inj: "versioned original j = versioned original k \<Longrightarrow> j = k"
  by (simp add: versioned_def show_nat_inj)

text \<open>The loop \<open>while os.path.exists(output_path)\<close> of \<open>_generate_output_path\<close>.\<close>

function unique_path :: "filesystem \<Rightarrow> string \<Rightarrow> string \<Rightarrow> nat \<Rightarrow> string" where
  "unique_path fsys original output_path counter =
     (if path_exists fsys output_path
      then unique_path fsys original (versioned original counter) (counter + 1)
      else output_path)"
  by pat_completeness auto

lemma path_exists_iff: "path_exists fsys p \<longleftrightarrow> p \<in> fst ` set fsys"
  by (simp add: path_exists_def map_of_eq_None_iff)

lemma unique_path_measure:
  assumes "path_exists fsys output_path"
  shows "card (fst ` set fsys \<inter> versioned original ` {counter + 1..})
           + (if path_exists fsys (versioned original counter) then 1 else 0)
         < card (fst ` set fsys \<inter> versioned original ` {counter..})
           + (if path_exists fsys output_path then 1 else 0)"
proof -
  let ?F = "fst ` set fsys" and ?V = "versioned original"
  have fin: "finite (?F \<inter> ?V ` {counter + 1..})" by simp
  have notin: "?V counter \<notin> ?V ` {counter + 1..}"
    by (auto dest: versioned_inj)
  have split: "{counter..} = insert counter {counter + 1..}" by auto
  show ?thesis
  proof (cases "path_exists fsys (?V counter)")
    case True
    then have "?V counter \<in> ?F" by (simp add: path_exists_iff)
    then have "?F \<inter> ?V ` {counter..} = insert (?V counter) (?F \<inter> ?V ` {counter + 1..})"
      by (subst split) auto
    then have "card (?F \<inter> ?V ` {counter..}) = Suc (card (?F \<inter> ?V ` {counter + 1..}))"
      using fin notin by simp
    then show ?thesis using True assms by simp
  next
    case False
    then have "?V counter \<notin> ?F" by (simp add: path_exists_iff)
    then have "?F \<inter> ?V ` {counter..} = ?F \<inter> ?V ` {counter + 1..}"
      by (subst split) auto
    then show ?thesis using False assms by simp
  qed
qed

termination unique_path
  by (relation "measure (\<lambda>(fsys, original, output_path, counter).
        card (fst ` set fsys \<inter> versioned original ` {counter..})
        + (if path_exists fsys output_path then 1 else 0))")
     (use unique_path_measure in auto)

declare unique_path.simps [simp del]

definition generate_output_path :: "string \<Rightarrow> app \<Rightarrow> string \<Rightarrow> source_type \<Rightarrow> string" where
  \<comment> \<open>\<open>now\<close> is \<open>datetime.now().strftime("%Y%m%d_%H%M%S")\<close> at the call\<close>
  "generate_output_path now st src ty =
     (let base = output_base st;
          model_name = (if ty = Hf then replace_char CHR ''/'' CHR ''_'' src
                        else if ty = File then path_stem src
                        else path_name src);
          model_name = (if auto_timestamp st then model_name @ ''_'' @ now else model_name);
          output_path = path_join base model_name
      in unique_path (fs st) output_path output_path 1)"

definition build_command :: "host \<Rightarrow> app \<Rightarrow> string \<Rightarrow> string \<Rightarrow> source_type \<Rightarrow> string list" where
  "build_command h st src out ty =
     (let cmd = [executable h, ''-m'', ''mlx_lm'', ''convert''];
          src' = (if ty = File \<and> endswith src ''.safetensors'' then path_parent src else src);
          cmd = cmd @ [''--hf-path'', src'];
          cmd = cmd @ [''--mlx-path'', out];
          cmd = cmd @ [''--dtype'', dtype st];
          cmd = (if enable_quant st
                 then (cmd @ [''-q'']) @ [''--q-bits'', q_bits st] @ [''--q-group-size'', q_group st]
                 else cmd);
          cmd = (if trust_remote st then cmd @ [''--trust-remote-code''] else cmd)
      in cmd)"

text \<open>
  \<open>_preview_command\<close> and \<open>_run_conversion\<close> return nothing; the model returns, beside the
  new state, which of their return statements was taken, with the command when one was
  built.
\<close>

datatype outcome =
    AlreadyRunning
  | NoSource
  | NeMoFiles
  | BaseDirectoryError string
  | Previewed "string list"
  | DryRun "string list"
  | Started "string list"

definition upper_type :: "source_type \<Rightarrow> string" where
  \<comment> \<open>\<open>source_type.upper()\<close>\<close>
  "upper_type ty = (case ty of Hf \<Rightarrow> ''HF'' | Local \<Rightarrow> ''LOCAL'' | File \<Rightarrow> ''FILE'')"

definition nemo_instructions :: "(string \<times> string) list" where
  "nemo_instructions =
     [(''INFO'', separator),
      (''INFO'', ''NeMo files require separate conversion to HuggingFace format first.''),
      (''INFO'', ''Install nemo2hf: pip install nemo2hf''),
      (''INFO'', ''Then run: python -m nemo2hf --in input.nemo --out temp_dir''),
      (''INFO'', ''Finally, use this tool on the temp_dir''),
      (''INFO'', separator)]"

definition preview_command :: "host \<Rightarrow> string \<Rightarrow> app \<Rightarrow> outcome \<times> app" where
  "preview_command h now st =
     (let source = strip (source_path st)
      in if source = []
         then (NoSource,
               st\<lparr>dialogs := dialogs st
                      @ [Showwarning ''No Source'' ''Please specify a model source.'']\<rparr>)
         else
           (let ty = detect_source_type (fs st) source;
                output_path = generate_output_path now st source ty
            in if endswith source ''.nemo''
               then (NeMoFiles,
                     app_log separator ''INFO''
                       (app_log ''Finally, use this tool on the temp_dir'' ''INFO''
                         (app_log ''Then run: python -m nemo2hf --in input.nemo --out temp_dir'' ''INFO''
                           (app_log ''Install nemo2hf: pip install nemo2hf'' ''INFO''
                             (app_log ''NeMo files require separate conversion to HuggingFace format first.'' ''INFO''
                               (app_log separator ''INFO'' st))))))
               else
                 (let cmd = build_command h st source output_path ty
                  in (Previewed cmd,
                      app_log separator ''INFO''
                        (app_log (''  '' @ render_command cmd) ''INFO''
                          (app_log ''Command:'' ''INFO''
                            (app_log (''Output Path: '' @ output_path) ''INFO''
                              (app_log (''Source Type: '' @ upper_type ty) ''INFO''
                                (app_log ''COMMAND PREVIEW'' ''INFO''
                                  (app_log separator ''INFO'' st))))))))))"

definition worker_alive :: "app \<Rightarrow> bool" where
  \<comment> \<open>\<open>self.worker_thread and self.worker_thread.is_alive()\<close>\<close>
  "worker_alive st =
     (case worker_thread st of
        None \<Rightarrow> False
      | Some i \<Rightarrow> i < length (threads st) \<and> t_alive (threads st ! i))"

definition run_conversion :: "host \<Rightarrow> string \<Rightarrow> app \<Rightarrow> outcome \<times> app" where
  "run_conversion h now st =
     (if worker_alive st
      then (AlreadyRunning,
            st\<lparr>dialogs := dialogs st
                   @ [Showwarning ''Already Running'' ''A conversion is already in progress.'']\<rparr>)
      else
        (let source = strip (source_path st)
         in if source = []
            then (NoSource,
                  st\<lparr>dialogs := dialogs st
                         @ [Showwarning ''No Source'' ''Please specify a model source.'']\<rparr>)
            else if endswith source ''.nemo''
            then (NeMoFiles,
                  snd (preview_command h now
                    (st\<lparr>dialogs := dialogs st
                           @ [Showinfo ''NeMo Files''
                                (''NeMo files must be converted to HuggingFace format first.''
                                 @ [CHR 0x0A] @ ''See the log for instructions.'')]\<rparr>)))
            else
              (let ty = detect_source_type (fs st) source;
                   output_path = generate_output_path now st source ty;
                   base_dir = output_base st
               in case makedirs (fs st) base_dir of
                    (fs', Some e) \<Rightarrow>
                      (BaseDirectoryError (str_os_error e),
                       st\<lparr>fs := fs',
                          dialogs := dialogs st
                              @ [Showerror ''Base Directory Error''
                                   (''Could not create base directory: '' @ str_os_error e)]\<rparr>)
                  | (fs', None) \<Rightarrow>
                      (let st1 = st\<lparr>fs := fs'\<rparr>;
                           cmd = build_command h st1 source output_path ty;
                           st2 = app_log (''Command: '' @ render_command cmd) ''INFO''
                                   (app_log (''Starting conversion: '' @ source @ '' -> '' @ output_path) ''INFO''
                                     (app_log separator ''INFO'' st1))
                       in if dry_run st2
                          then (DryRun cmd,
                                app_log separator ''INFO''
                                  (app_log ''DRY RUN - Not executing command'' ''INFO'' st2))
                          else
                            (let st3 = st2\<lparr>convert_btn := DISABLED, stop_btn := NORMAL,
                                           progress_running := True\<rparr>;
                                 env = (if hf_offline st3
                                        then AList.update ''HF_HUB_OFFLINE'' ''1'' (environ h)
                                        else environ h);
                                 thread = \<lparr>t_cmd = cmd, t_env = env,
                                           t_output_path = output_path, t_alive = True\<rparr>
                             in (Started cmd,
                                 st3\<lparr>worker_thread := Some (length (threads st3)),
                                      threads := threads st3 @ [thread]\<rparr>))))))"

subsection \<open>The worker thread\<close>

fun stream_output :: "string list \<Rightarrow> app \<Rightarrow> app" where
  \<comment> \<open>\<open>for line in self.current_process.stdout: self._log(line.rstrip())\<close>\<close>
  "stream_output [] st = st"
| "stream_output (line # rest) st = stream_output rest (app_log (rstrip line) ''INFO'' st)"

definition worker_try :: "process \<Rightarrow> task \<Rightarrow> app \<Rightarrow> app" where
  \<comment> \<open>the \<open>try\<close> block of \<open>worker\<close> with its \<open>except\<close> clause\<close>
  "worker_try proc thread st =
     (case proc of
        SpawnFails e \<Rightarrow> app_log (''ERROR: '' @ e) ''ERROR'' st
      | Streams lines ending \<Rightarrow>
          (let st1 = stream_output lines (st\<lparr>current_process := Some proc\<rparr>)
           in case ending of
                Raises e \<Rightarrow> app_log (''ERROR: '' @ e) ''ERROR'' st1
              | Exits return_code \<Rightarrow>
                  if return_code = 0
                  then app_log (''Output saved to: '' @ t_output_path thread) ''INFO''
                         (app_log ''SUCCESS: Conversion completed!'' ''SUCCESS'' st1)
                  else app_log (''ERROR: Conversion failed (exit code ''
                                  @ show_int return_code @ '')'') ''ERROR'' st1))"

definition worker :: "process \<Rightarrow> task \<Rightarrow> app \<Rightarrow> app" where
  \<comment> \<open>\<open>worker\<close>, run to its end: the \<open>try\<close> block, then the \<open>finally\<close> clause\<close>
  "worker proc thread st =
     app_log separator ''INFO''
       ((worker_try proc thread st)
          \<lparr>progress_running := False, convert_btn := NORMAL, stop_btn := DISABLED,
           current_process := None\<rparr>)"

definition thread_exit :: "nat \<Rightarrow> app \<Rightarrow> app" where
  \<comment> \<open>thread \<open>i\<close> has returned from \<open>worker\<close>: it is no longer alive\<close>
  "thread_exit i st = st\<lparr>threads := (threads st)[i := (threads st ! i)\<lparr>t_alive := False\<rparr>]\<rparr>"

subsection \<open>Reachable states\<close>

text \<open>
  The states the application reaches from its start: the user edits the form, the
  filesystem changes under it, a button handler runs on the foreground thread, or a
  live worker thread runs to its end against some behaviour of the external process.
  A worker's steps are taken as one; what the foreground does in between is not
  interleaved with them.
\<close>

inductive reachable :: "host \<Rightarrow> app \<Rightarrow> bool" for h :: host where
  start: "reachable h (initial_app home fs0)"
| edit: "reachable h st \<Longrightarrow>
     reachable h (st\<lparr>source_path := a, output_base := b, auto_timestamp := c,
                     enable_quant := d, q_bits := e, q_group := f, dtype := g,
                     trust_remote := i, hf_offline := j, dry_run := k\<rparr>)"
| external: "reachable h st \<Longrightarrow> reachable h (st\<lparr>fs := fs'\<rparr>)"
| preview: "reachable h st \<Longrightarrow> reachable h (snd (preview_command h now st))"
| convert: "reachable h st \<Longrightarrow> reachable h (snd (run_conversion h now st))"
| finish: "reachable h st \<Longrightarrow> n < length (threads st) \<Longrightarrow> t_alive (threads st ! n) \<Longrightarrow>
     reachable h (thread_exit n (worker proc (threads st ! n) st))"

section \<open>Sample inputs\<close>

definition demo_host :: host where
  "demo_host = \<lparr>executable = ''/usr/bin/python3'', environ = [(''HOME'', ''/Users/me'')]\<rparr>"

definition demo_app :: app where
  "demo_app = (initial_app ''/Users/me'' [(''/Users/me'', Directory)])
                \<lparr>source_path := ''org/model-name'', auto_timestamp := False\<rparr>"

definition demo_now :: string where
  "demo_now = ''20250101_120000''"

definition demo_command :: "string list" where
  "demo_command =
     [''/usr/bin/python3'', ''-m'', ''mlx_lm'', ''convert'', ''--hf-path'', ''org/model-name'',
      ''--mlx-path'', ''/Users/me/MLX_Models/org_model-name'', ''--dtype'', ''float16'',
      ''-q'', ''--q-bits'', ''4'', ''--q-group-size'', ''64'', ''--trust-remote-code'']"

definition demo_running :: app where
  "demo_running = snd (run_conversion demo_host demo_now demo_app)"

definition demo_thread :: task where
  "demo_thread = \<lparr>t_cmd = demo_command, t_env = [(''HOME'', ''/Users/me'')],
                  t_output_path = ''/Users/me/MLX_Models/org_model-name'', t_alive = True\<rparr>"

definition demo_taken :: app where
  "demo_taken = demo_app\<lparr>fs := [(''/Users/me/MLX_Models'', Directory),
                               (''/Users/me/MLX_Models/org_model-name'', Directory),
                               (''/Users/me/MLX_Models/org_model-name_v1'', Directory)]\<rparr>"

definition demo_dry :: app where
  "demo_dry = demo_app\<lparr>dry_run := True\<rparr>"

definition demo_quoted :: app where
  "demo_quoted = demo_app\<lparr>source_path := ''my model'' @ [CHR 0x27] @ ''s'', dry_run := True\<rparr>"

definition demo_nemo :: app where
  "demo_nemo = demo_app\<lparr>source_path := ''/models/parakeet.nemo''\<rparr>"

section \<open>The classification rules as specified\<close>

text \<open>
  The classification rules as the specification words them, applied to a string as it
  stands. \<open>Hf\<close> is the specification's RemoteIdentifier, \<open>File\<close> its LocalFile.
\<close>

definition has_model_extension :: "string \<Rightarrow> bool" where
  "has_model_extension p = (endswith p ''.safetensors'' \<or> endswith p ''.nemo'')"

definition classifySource_rules :: "filesystem \<Rightarrow> string \<Rightarrow> source_type" where
  "classifySource_rules fsys p =
     (if CHR ''/'' \<in> set p \<and> \<not> path_exists fsys p then Hf
      else if path_exists fsys p \<and> path_isdir fsys p then Local
      else if path_exists fsys p \<and> has_model_extension p then File
      else Hf)"

section \<open>The single-slot invariant\<close>

text \<open>A thread that is alive is the one \<open>worker_thread\<close> refers to.\<close>

definition single_slot :: "app \<Rightarrow> bool" where
  "single_slot st = (\<forall>i<length (threads st). t_alive (threads st ! i) \<longrightarrow> worker_thread st = Some i)"

section \<open>The command line\<close>

text \<open>
  Claim C8. \<open>_build_command\<close> emits, in this order and with nothing else: the interpreter
  with \<open>-m mlx_lm convert\<close>, \<open>--hf-path\<close> and the source (the containing directory for a
  \<open>.safetensors\<close> file), \<open>--mlx-path\<close> and the output path, \<open>--dtype\<close> and the dtype, then
  \<open>-q --q-bits b --q-group-size g\<close> exactly when quantization is enabled, then
  \<open>--trust-remote-code\<close> exactly when the trust option is set. The result is a function of
  these inputs alone: two hosts and two application states that agree on the interpreter
  and on the six settings read give the same vector, whatever their filesystem, log,
  threads or other fields.
\<close>

theorem build_command_fixed_order:
  "build_command h st src out ty =
     [executable h, ''-m'', ''mlx_lm'', ''convert'',
      ''--hf-path'', (if ty = File \<and> endswith src ''.safetensors'' then path_parent src else src),
      ''--mlx-path'', out, ''--dtype'', dtype st]
     @ (if enable_quant st
        then [''-q'', ''--q-bits'', q_bits st, ''--q-group-size'', q_group st] else [])
     @ (if trust_remote st then [''--trust-remote-code''] else [])
   \<and> (executable h' = executable h \<and> dtype st' = dtype st \<and> enable_quant st' = enable_quant st
        \<and> q_bits st' = q_bits st \<and> q_group st' = q_group st \<and> trust_remote st' = trust_remote st
      \<longrightarrow> build_command h' st' src out ty = build_command h st src out ty)"
  by (simp add: build_command_def Let_def)

theorem build_command_fixed_order_witness:
  "build_command demo_host demo_app ''org/model-name'' ''/Users/me/MLX_Models/org_model-name'' Hf =
     [''/usr/bin/python3'', ''-m'', ''mlx_lm'', ''convert'', ''--hf-path'', ''org/model-name'',
      ''--mlx-path'', ''/Users/me/MLX_Models/org_model-name'', ''--dtype'', ''float16'',
      ''-q'', ''--q-bits'', ''4'', ''--q-group-size'', ''64'', ''--trust-remote-code'']
   \<and> build_command demo_host (demo_app\<lparr>fs := [], log_text := []\<rparr>) ''org/model-name''
        ''/Users/me/MLX_Models/org_model-name'' Hf
     = build_command demo_host demo_app ''org/model-name'' ''/Users/me/MLX_Models/org_model-name'' Hf"
  using build_command_fixed_order [where h = demo_host and st = demo_app and src = "''org/model-name''"
      and out = "''/Users/me/MLX_Models/org_model-name''" and ty = Hf and h' = demo_host
      and st' = "demo_app\<lparr>fs := [], log_text := []\<rparr>"]
  by (simp add: demo_host_def demo_app_def initial_app_def)

text \<open>
  Claim C10, as the code has it. With quantization disabled the vector does not depend on
  the bits and group-size settings: changing both leaves it unchanged, and it is the fixed
  prefix followed by the trust flag when set. None of \<open>-q\<close>, \<open>--q-bits\<close>, \<open>--q-group-size\<close>
  is emitted as a flag; such a string occurs in the vector only where the interpreter
  path, the source, the output path or the dtype is that string.
\<close>

theorem quant_disabled_independent:
  assumes "\<not> enable_quant st"
  shows "build_command h (st\<lparr>q_bits := b, q_group := g\<rparr>) src out ty = build_command h st src out ty
    \<and> build_command h st src out ty =
        [executable h, ''-m'', ''mlx_lm'', ''convert'',
         ''--hf-path'', (if ty = File \<and> endswith src ''.safetensors'' then path_parent src else src),
         ''--mlx-path'', out, ''--dtype'', dtype st]
        @ (if trust_remote st then [''--trust-remote-code''] else [])
    \<and> (\<forall>x \<in> set (build_command h st src out ty).
          x \<in> {''-q'', ''--q-bits'', ''--q-group-size''} \<longrightarrow>
          x \<in> {executable h,
                (if ty = File \<and> endswith src ''.safetensors'' then path_parent src else src),
                out, dtype st})"
  using assms by (auto simp add: build_command_def Let_def)

theorem quant_disabled_independent_witness:
  "\<not> enable_quant (demo_app\<lparr>enable_quant := False\<rparr>)
   \<and> build_command demo_host (demo_app\<lparr>enable_quant := False, q_bits := ''8'', q_group := ''32''\<rparr>)
        ''org/model-name'' ''/out'' Hf
     = [''/usr/bin/python3'', ''-m'', ''mlx_lm'', ''convert'', ''--hf-path'', ''org/model-name'',
        ''--mlx-path'', ''/out'', ''--dtype'', ''float16'', ''--trust-remote-code'']"
  using quant_disabled_independent [where st = "demo_app\<lparr>enable_quant := False\<rparr>" and h = demo_host
      and b = "''8''" and g = "''32''" and src = "''org/model-name''" and out = "''/out''" and ty = Hf]
  by (simp add: demo_host_def demo_app_def initial_app_def)

text \<open>
  The claim as written fails when the user enters \<open>-q\<close> as the source: quantization is
  disabled and the vector holds \<open>-q\<close>, as the value of \<open>--hf-path\<close>.
\<close>

theorem quant_flag_in_vector_counterexample:
  "\<not> enable_quant (demo_app\<lparr>enable_quant := False\<rparr>)
   \<and> ''-q'' \<in> set (build_command demo_host (demo_app\<lparr>enable_quant := False\<rparr>) ''-q''
                     ''/Users/me/MLX_Models/-q'' Hf)"
  by (simp add: build_command_def demo_host_def demo_app_def initial_app_def Let_def)

section \<open>The output path\<close>

lemma unique_path_fresh: "\<not> path_exists fsys (unique_path fsys original output_path counter)"
proof (induction fsys original output_path counter rule: unique_path.induct)
  case (1 fsys original output_path counter)
  then show ?case
    by (cases "path_exists fsys output_path") (simp_all add: unique_path.simps [of fsys original output_path])
qed

lemma unique_path_keeps: "\<not> path_exists fsys output_path \<Longrightarrow>
    unique_path fsys original output_path counter = output_path"
  by (simp add: unique_path.simps [of fsys original output_path])

lemma unique_path_least:
  "path_exists fsys output_path \<Longrightarrow>
   \<exists>k\<ge>counter. unique_path fsys original output_path counter = versioned original k
     \<and> (\<forall>j. counter \<le> j \<and> j < k \<longrightarrow> path_exists fsys (versioned original j))"
proof (induction fsys original output_path counter rule: unique_path.induct)
  case (1 fsys original output_path counter)
  have step: "unique_path fsys original output_path counter
      = unique_path fsys original (versioned original counter) (counter + 1)"
    using "1.prems" by (simp add: unique_path.simps [of fsys original output_path])
  show ?case
  proof (cases "path_exists fsys (versioned original counter)")
    case True
    from "1.IH" [OF "1.prems" True] obtain k where k: "counter + 1 \<le> k"
      "unique_path fsys original (versioned original counter) (counter + 1) = versioned original k"
      "\<forall>j. counter + 1 \<le> j \<and> j < k \<longrightarrow> path_exists fsys (versioned original j)"
      by blast
    have "\<forall>j. counter \<le> j \<and> j < k \<longrightarrow> path_exists fsys (versioned original j)"
    proof (intro allI impI)
      fix j assume "counter \<le> j \<and> j < k"
      then have "j = counter \<or> (counter + 1 \<le> j \<and> j < k)" by arith
      then show "path_exists fsys (versioned original j)" using True k(3) by blast
    qed
    with k step show ?thesis by (intro exI [of _ k]) simp
  next
    case False
    then have "unique_path fsys original output_path counter = versioned original counter"
      using step by (simp add: unique_path_keeps)
    then show ?thesis by (intro exI [of _ counter]) auto
  qed
qed

lemma versioned_1: "versioned p 1 = p @ ''_v1''"
  by (simp add: versioned_def show_nat.simps digit_def)

lemma versioned_2: "versioned p 2 = p @ ''_v2''"
  by (simp add: versioned_def show_nat.simps digit_def)

text \<open>
  Claim C6. Without the timestamp, \<open>_generate_output_path\<close> returns a path that does not
  exist in the filesystem it was given, for every filesystem. It is \<open>base/name\<close> (the join
  of the output base and the derived name) when that does not exist; \<open>base/name_v1\<close> when
  \<open>base/name\<close> exists and \<open>base/name_v1\<close> does not; \<open>base/name_v2\<close> when both exist and
  \<open>base/name_v2\<close> does not; in general \<open>base/name_vk\<close> for the first \<open>k\<close>, counting from 1,
  whose path does not exist. The loop always ends: \<open>unique_path\<close> is a total function.
\<close>

theorem generate_output_path_unique:
  fixes st :: app and src now :: string and ty :: source_type
  assumes "\<not> auto_timestamp st"
  defines "name \<equiv> (if ty = Hf then replace_char CHR ''/'' CHR ''_'' src
                    else if ty = File then path_stem src else path_name src)"
  defines "p0 \<equiv> path_join (output_base st) name"
  defines "r \<equiv> generate_output_path now st src ty"
  shows "\<not> path_exists (fs st) r
    \<and> (\<not> path_exists (fs st) p0 \<longrightarrow> r = p0)
    \<and> (path_exists (fs st) p0 \<and> \<not> path_exists (fs st) (p0 @ ''_v1'') \<longrightarrow> r = p0 @ ''_v1'')
    \<and> (path_exists (fs st) p0 \<and> path_exists (fs st) (p0 @ ''_v1'')
         \<and> \<not> path_exists (fs st) (p0 @ ''_v2'') \<longrightarrow> r = p0 @ ''_v2'')
    \<and> (path_exists (fs st) p0 \<longrightarrow>
         (\<exists>k\<ge>1. r = p0 @ ''_v'' @ show_nat k
            \<and> (\<forall>j. 1 \<le> j \<and> j < k \<longrightarrow> path_exists (fs st) (p0 @ ''_v'' @ show_nat j))))"
proof -
  have r: "r = unique_path (fs st) p0 p0 1"
    using assms(1) by (simp add: r_def p0_def name_def generate_output_path_def Let_def)
  have fresh: "\<not> path_exists (fs st) r"
    unfolding r by (rule unique_path_fresh)
  have keep: "\<not> path_exists (fs st) p0 \<longrightarrow> r = p0"
    unfolding r by (simp add: unique_path_keeps)
  have least: "path_exists (fs st) p0 \<longrightarrow>
      (\<exists>k\<ge>1. r = versioned p0 k \<and> (\<forall>j. 1 \<le> j \<and> j < k \<longrightarrow> path_exists (fs st) (versioned p0 j)))"
    unfolding r using unique_path_least [of "fs st" p0 1 p0] by blast
  have v1: "path_exists (fs st) p0 \<and> \<not> path_exists (fs st) (p0 @ ''_v1'') \<longrightarrow> r = p0 @ ''_v1''"
  proof
    assume a: "path_exists (fs st) p0 \<and> \<not> path_exists (fs st) (p0 @ ''_v1'')"
    then obtain k where k: "1 \<le> k" "r = versioned p0 k"
      "\<forall>j. 1 \<le> j \<and> j < k \<longrightarrow> path_exists (fs st) (versioned p0 j)"
      using least by blast
    have "k = 1"
    proof (rule ccontr)
      assume "k \<noteq> 1"
      then have "1 \<le> (1::nat) \<and> 1 < k" using k(1) by arith
      then have "path_exists (fs st) (versioned p0 1)" using k(3) by blast
      then have "path_exists (fs st) (p0 @ ''_v1'')" unfolding versioned_1 .
      then show False using a by blast
    qed
    then show "r = p0 @ ''_v1''" using k(2) versioned_1 by metis
  qed
  have v2: "path_exists (fs st) p0 \<and> path_exists (fs st) (p0 @ ''_v1'')
         \<and> \<not> path_exists (fs st) (p0 @ ''_v2'') \<longrightarrow> r = p0 @ ''_v2''"
  proof
    assume a: "path_exists (fs st) p0 \<and> path_exists (fs st) (p0 @ ''_v1'')
         \<and> \<not> path_exists (fs st) (p0 @ ''_v2'')"
    then obtain k where k: "1 \<le> k" "r = versioned p0 k"
      "\<forall>j. 1 \<le> j \<and> j < k \<longrightarrow> path_exists (fs st) (versioned p0 j)"
      using least by blast
    have "k \<noteq> 1" using a fresh k(2) versioned_1 by metis
    have "k = 2"
    proof (rule ccontr)
      assume "k \<noteq> 2"
      then have "1 \<le> (2::nat) \<and> 2 < k" using k(1) \<open>k \<noteq> 1\<close> by arith
      then have "path_exists (fs st) (versioned p0 2)" using k(3) by blast
      then have "path_exists (fs st) (p0 @ ''_v2'')" unfolding versioned_2 .
      then show False using a by blast
    qed
    then show "r = p0 @ ''_v2''" using k(2) versioned_2 by metis
  qed
  from fresh keep v1 v2 least show ?thesis
    by (simp add: versioned_def)
qed

theorem generate_output_path_unique_witness:
  "\<not> auto_timestamp demo_taken
   \<and> path_exists (fs demo_taken) ''/Users/me/MLX_Models/org_model-name''
   \<and> path_exists (fs demo_taken) ''/Users/me/MLX_Models/org_model-name_v1''
   \<and> generate_output_path ''20250101_120000'' demo_taken ''org/model-name'' Hf
       = ''/Users/me/MLX_Models/org_model-name_v2''"
  using generate_output_path_unique [where st = demo_taken and now = "''20250101_120000''"
      and src = "''org/model-name''" and ty = Hf]
  by (simp add: demo_taken_def demo_app_def initial_app_def path_join_def endswith_def
      replace_char_def path_exists_def)

section \<open>The source type\<close>

lemma strip_plain1: "strip ''org/model-name'' = ''org/model-name''"
  by (simp add: strip_def lstrip_def rstrip_def py_isspace_def)

lemma strip_plain2: "strip ''./existing_dir'' = ''./existing_dir''"
  by (simp add: strip_def lstrip_def rstrip_def py_isspace_def)

text \<open>
  Claim C7, as the code has it. \<open>_detect_source_type\<close> applies the rules, in their order, to
  the input with leading and trailing whitespace removed; on an input that carries none
  it is the rules applied to the input itself. A name \<open>org/model-name\<close> that does not
  exist locally is a remote identifier, and an existing directory is local.
\<close>

theorem detect_source_type_rules:
  "detect_source_type fsys p = classifySource_rules fsys (strip p)
   \<and> (strip p = p \<longrightarrow> detect_source_type fsys p = classifySource_rules fsys p)
   \<and> (\<not> path_exists fsys ''org/model-name'' \<longrightarrow> detect_source_type fsys ''org/model-name'' = Hf)
   \<and> (path_isdir fsys ''./existing_dir'' \<longrightarrow> detect_source_type fsys ''./existing_dir'' = Local)"
proof -
  have a: "\<And>q. detect_source_type fsys q = classifySource_rules fsys (strip q)"
    by (simp add: detect_source_type_def classifySource_rules_def has_model_extension_def Let_def)
  have b: "\<not> path_exists fsys ''org/model-name'' \<longrightarrow> detect_source_type fsys ''org/model-name'' = Hf"
    by (simp add: a strip_plain1 classifySource_rules_def)
  have c: "path_isdir fsys ''./existing_dir'' \<longrightarrow> detect_source_type fsys ''./existing_dir'' = Local"
    by (auto simp add: a strip_plain2 classifySource_rules_def path_isdir_def path_exists_def)
  from a b c show ?thesis by simp
qed

theorem detect_source_type_rules_witness:
  "strip ''model.safetensors'' = ''model.safetensors''
   \<and> detect_source_type [(''model.safetensors'', RegularFile)] ''model.safetensors'' = File
   \<and> \<not> path_exists [(''./existing_dir'', Directory)] ''org/model-name''
   \<and> detect_source_type [(''./existing_dir'', Directory)] ''org/model-name'' = Hf
   \<and> path_isdir [(''./existing_dir'', Directory)] ''./existing_dir''
   \<and> detect_source_type [(''./existing_dir'', Directory)] ''./existing_dir'' = Local"
  using detect_source_type_rules [where fsys = "[(''model.safetensors'', RegularFile)]" and p = "''model.safetensors''"]
    detect_source_type_rules [where fsys = "[(''./existing_dir'', Directory)]" and p = "''org/model-name''"]
  by (simp add: strip_def lstrip_def rstrip_def py_isspace_def classifySource_rules_def
      has_model_extension_def path_exists_def path_isdir_def endswith_def)

text \<open>
  Applied to the input as it stands the rules give another answer when the input has
  surrounding whitespace: with a directory \<open>d\<close> and no entry for the name with a leading
  blank, the code answers \<open>Local\<close> and the rules answer \<open>Hf\<close>.
\<close>

theorem classify_unstripped_counterexample:
  "detect_source_type [(''d'', Directory)] '' d'' = Local
   \<and> classifySource_rules [(''d'', Directory)] '' d'' = Hf"
  by (simp add: detect_source_type_def classifySource_rules_def strip_def lstrip_def rstrip_def
      py_isspace_def path_exists_def path_isdir_def has_model_extension_def endswith_def)

section \<open>Lemmas on the worker and on decimal rendering\<close>

lemma stream_output_eq:
  "stream_output lines st
     = st\<lparr>log_text := log_text st @ map (\<lambda>line. (''INFO'', rstrip line)) lines\<rparr>"
  by (induction lines arbitrary: st) (simp_all add: app_log_def)

lemma show_nat_digits: "set (show_nat n) \<subseteq> set ''0123456789''"
proof (induction n rule: show_nat.induct)
  case (1 n)
  have d: "\<And>d. d < 10 \<Longrightarrow> digit d \<in> set ''0123456789''"
  proof -
    fix d :: nat assume "d < 10"
    then have "d \<in> {0, 1, 2, 3, 4, 5, 6, 7, 8, 9}" by auto
    then show "digit d \<in> set ''0123456789''" by (auto simp: digit_def)
  qed
  show ?case
  proof (cases "n < 10")
    case True
    then show ?thesis using d [of n] by (simp add: show_nat.simps [of n])
  next
    case False
    then show ?thesis using "1.IH" d [of "n mod 10"] by (simp add: show_nat.simps [of n])
  qed
qed

lemma show_nat_no_minus: "show_nat n \<noteq> CHR ''-'' # s"
proof
  assume "show_nat n = CHR ''-'' # s"
  then have "CHR ''-'' \<in> set (show_nat n)" by simp
  then show False using show_nat_digits [of n] by auto
qed

lemma show_int_inj: "show_int a = show_int b \<Longrightarrow> a = b"
proof -
  assume eq: "show_int a = show_int b"
  show "a = b"
  proof (cases "a < 0")
    case True
    show ?thesis
    proof (cases "b < 0")
      case b: True
      from eq True b have "nat (- a) = nat (- b)" by (simp add: show_int_def show_nat_inj)
      with True b show ?thesis by simp
    next
      case b: False
      from eq True b have "show_nat (nat b) = CHR ''-'' # show_nat (nat (- a))"
        by (simp add: show_int_def)
      then show ?thesis using show_nat_no_minus by blast
    qed
  next
    case False
    show ?thesis
    proof (cases "b < 0")
      case b: True
      from eq False b have "show_nat (nat a) = CHR ''-'' # show_nat (nat (- b))"
        by (simp add: show_int_def)
      then show ?thesis using show_nat_no_minus by blast
    next
      case b: False
      from eq False b have "nat a = nat b" by (simp add: show_int_def show_nat_inj)
      with False b show ?thesis by simp
    qed
  qed
qed

lemma worker_streams:
  "worker (Streams lines ending) thread st =
     st\<lparr>progress_running := False, convert_btn := NORMAL, stop_btn := DISABLED,
        current_process := None,
        log_text := log_text st @ map (\<lambda>line. (''INFO'', rstrip line)) lines
          @ (case ending of
               Exits return_code \<Rightarrow>
                 if return_code = 0
                 then [(''SUCCESS'', ''SUCCESS: Conversion completed!''),
                       (''INFO'', ''Output saved to: '' @ t_output_path thread)]
                 else [(''ERROR'', ''ERROR: Conversion failed (exit code ''
                                     @ show_int return_code @ '')'')]
             | Raises e \<Rightarrow> [(''ERROR'', ''ERROR: '' @ e)])
          @ [(''INFO'', separator)]\<rparr>"
  by (cases ending) (simp_all add: worker_def worker_try_def stream_output_eq app_log_def Let_def)

lemma worker_spawn_fails:
  "worker (SpawnFails e) thread st =
     st\<lparr>progress_running := False, convert_btn := NORMAL, stop_btn := DISABLED,
        current_process := None,
        log_text := log_text st @ [(''ERROR'', ''ERROR: '' @ e), (''INFO'', separator)]\<rparr>"
  by (simp add: worker_def worker_try_def app_log_def)

section \<open>Lemmas on the handlers\<close>

lemma startswith_iff: "startswith s p \<longleftrightarrow> (\<exists>r. s = p @ r)"
  by (induction s p rule: startswith.induct) auto

lemma endswith_iff: "endswith s suf \<longleftrightarrow> (\<exists>pre. s = pre @ suf)"
proof
  assume "endswith s suf"
  then obtain r where "rev s = rev suf @ r" by (auto simp: endswith_def startswith_iff)
  then have "s = rev r @ suf" by (metis rev_append rev_rev_ident)
  then show "\<exists>pre. s = pre @ suf" by blast
next
  assume "\<exists>pre. s = pre @ suf"
  then show "endswith s suf" by (auto simp: endswith_def startswith_iff)
qed

lemma endswith_nemo_strip:
  assumes "endswith s ''.nemo''"
  shows "endswith (strip s) ''.nemo'' \<and> strip s \<noteq> []"
proof -
  from assms obtain pre where s: "s = pre @ ''.nemo''" by (auto simp: endswith_iff)
  have r: "rstrip s = s" by (simp add: s rstrip_def py_isspace_def)
  have "lstrip s = (if \<forall>c\<in>set pre. py_isspace c then ''.nemo'' else dropWhile py_isspace pre @ ''.nemo'')"
    by (simp add: s lstrip_def dropWhile_append py_isspace_def)
  then have "\<exists>q. strip s = q @ ''.nemo''"
    by (auto simp add: strip_def r intro: exI [of _ "[]"])
  then show ?thesis by (auto simp: endswith_iff)
qed

lemma run_conversion_alive:
  "worker_alive st \<Longrightarrow>
   run_conversion h now st =
     (AlreadyRunning,
      st\<lparr>dialogs := dialogs st
             @ [Showwarning ''Already Running'' ''A conversion is already in progress.'']\<rparr>)"
  by (simp add: run_conversion_def)

lemma preview_command_nemo:
  assumes "strip (source_path st) \<noteq> []" "endswith (strip (source_path st)) ''.nemo''"
  shows "preview_command h now st = (NeMoFiles, st\<lparr>log_text := log_text st @ nemo_instructions\<rparr>)"
  using assms by (simp add: preview_command_def Let_def app_log_def nemo_instructions_def)

lemma run_conversion_nemo:
  assumes "\<not> worker_alive st" "strip (source_path st) \<noteq> []" "endswith (strip (source_path st)) ''.nemo''"
  shows "run_conversion h now st =
     (NeMoFiles,
      st\<lparr>dialogs := dialogs st
             @ [Showinfo ''NeMo Files''
                  (''NeMo files must be converted to HuggingFace format first.''
                   @ [CHR 0x0A] @ ''See the log for instructions.'')],
         log_text := log_text st @ nemo_instructions\<rparr>)"
  using assms by (simp add: run_conversion_def Let_def preview_command_nemo)

lemma build_command_fs: "build_command h (st\<lparr>fs := x\<rparr>) src out ty = build_command h st src out ty"
  by (simp add: build_command_def Let_def)

lemma run_conversion_accepted:
  assumes "\<not> worker_alive st" "strip (source_path st) \<noteq> []"
    "\<not> endswith (strip (source_path st)) ''.nemo''"
    "makedirs (fs st) (output_base st) = (fs', None)"
  shows "run_conversion h now st =
     (let source = strip (source_path st);
          ty = detect_source_type (fs st) source;
          output_path = generate_output_path now st source ty;
          cmd = build_command h st source output_path ty;
          st2 = st\<lparr>fs := fs',
                   log_text := log_text st
                     @ [(''INFO'', separator),
                        (''INFO'', ''Starting conversion: '' @ source @ '' -> '' @ output_path),
                        (''INFO'', ''Command: '' @ render_command cmd)]\<rparr>
      in if dry_run st
         then (DryRun cmd,
               st2\<lparr>log_text := log_text st2
                      @ [(''INFO'', ''DRY RUN - Not executing command''), (''INFO'', separator)]\<rparr>)
         else (Started cmd,
               st2\<lparr>convert_btn := DISABLED, stop_btn := NORMAL, progress_running := True,
                    worker_thread := Some (length (threads st)),
                    threads := threads st
                      @ [\<lparr>t_cmd = cmd,
                          t_env = (if hf_offline st
                                   then AList.update ''HF_HUB_OFFLINE'' ''1'' (environ h)
                                   else environ h),
                          t_output_path = output_path, t_alive = True\<rparr>]\<rparr>))"
  using assms by (simp add: run_conversion_def Let_def app_log_def build_command_fs)

lemma run_conversion_started:
  assumes "run_conversion h now st = (Started cmd, st')"
  shows "\<not> worker_alive st \<and> strip (source_path st) \<noteq> []
    \<and> \<not> endswith (strip (source_path st)) ''.nemo''
    \<and> (\<exists>fs'. makedirs (fs st) (output_base st) = (fs', None)) \<and> \<not> dry_run st"
  using assms
  by (auto simp add: run_conversion_def Let_def app_log_def split: if_splits prod.splits option.splits)

section \<open>The single thread slot\<close>

lemma preview_command_threads:
  "threads (snd (preview_command h now st)) = threads st
   \<and> worker_thread (snd (preview_command h now st)) = worker_thread st"
  by (simp add: preview_command_def Let_def app_log_def)

lemma run_conversion_threads:
  "(threads (snd (run_conversion h now st)) = threads st
      \<and> worker_thread (snd (run_conversion h now st)) = worker_thread st)
   \<or> (\<not> worker_alive st
      \<and> (\<exists>t. t_alive t \<and> threads (snd (run_conversion h now st)) = threads st @ [t]
            \<and> worker_thread (snd (run_conversion h now st)) = Some (length (threads st))))"
proof (cases "worker_alive st")
  case True
  then show ?thesis by (simp add: run_conversion_alive)
next
  case idle: False
  show ?thesis
  proof (cases "strip (source_path st) = []")
    case True
    then show ?thesis using idle by (simp add: run_conversion_def)
  next
    case src: False
    show ?thesis
    proof (cases "endswith (strip (source_path st)) ''.nemo''")
      case True
      then show ?thesis using idle src by (simp add: run_conversion_nemo)
    next
      case nemo: False
      show ?thesis
      proof (cases "makedirs (fs st) (output_base st)")
        case (Pair fs' raised)
        show ?thesis
        proof (cases raised)
          case (Some e)
          then show ?thesis using Pair idle src nemo by (simp add: run_conversion_def Let_def)
        next
          case None
          with Pair have ok: "makedirs (fs st) (output_base st) = (fs', None)" by simp
          show ?thesis
            using idle by (simp add: run_conversion_accepted [OF idle src nemo ok] Let_def)
        qed
      qed
    qed
  qed
qed

lemma worker_threads:
  "threads (worker proc thread st) = threads st
   \<and> worker_thread (worker proc thread st) = worker_thread st"
  by (cases proc) (simp_all add: worker_streams worker_spawn_fails)

lemma idle_no_thread_alive:
  assumes "single_slot st" "\<not> worker_alive st" "i < length (threads st)"
  shows "\<not> t_alive (threads st ! i)"
proof
  assume a: "t_alive (threads st ! i)"
  with assms(1,3) have "worker_thread st = Some i" by (simp add: single_slot_def)
  with a assms(3) have "worker_alive st" by (simp add: worker_alive_def)
  with assms(2) show False by simp
qed

lemma reachable_single_slot: "reachable h st \<Longrightarrow> single_slot st"
proof (induction rule: reachable.induct)
  case (start home fs0)
  show ?case by (simp add: single_slot_def initial_app_def)
next
  case (edit st a b c d e f g i j k)
  then show ?case by (simp add: single_slot_def)
next
  case (external st fs')
  then show ?case by (simp add: single_slot_def)
next
  case (preview st now)
  then show ?case by (simp add: single_slot_def preview_command_threads)
next
  case (convert st now)
  from run_conversion_threads [of h now st] show ?case
  proof
    assume "threads (snd (run_conversion h now st)) = threads st
      \<and> worker_thread (snd (run_conversion h now st)) = worker_thread st"
    with convert.IH show ?thesis by (simp add: single_slot_def)
  next
    assume a: "\<not> worker_alive st
      \<and> (\<exists>t. t_alive t \<and> threads (snd (run_conversion h now st)) = threads st @ [t]
            \<and> worker_thread (snd (run_conversion h now st)) = Some (length (threads st)))"
    then obtain t where t: "threads (snd (run_conversion h now st)) = threads st @ [t]"
      "worker_thread (snd (run_conversion h now st)) = Some (length (threads st))" by blast
    show ?thesis
      unfolding single_slot_def
    proof (intro allI impI)
      fix i
      assume i: "i < length (threads (snd (run_conversion h now st)))"
        and al: "t_alive (threads (snd (run_conversion h now st)) ! i)"
      have "\<not> i < length (threads st)"
      proof
        assume lt: "i < length (threads st)"
        then have "t_alive (threads st ! i)" using al t(1) by (simp add: nth_append)
        then show False using idle_no_thread_alive [OF convert.IH _ lt] a by blast
      qed
      then have "i = length (threads st)" using i t(1) by simp
      then show "worker_thread (snd (run_conversion h now st)) = Some i" using t(2) by simp
    qed
  qed
next
  case (finish st n proc)
  show ?case
    unfolding single_slot_def
  proof (intro allI impI)
    fix i
    assume i: "i < length (threads (thread_exit n (worker proc (threads st ! n) st)))"
      and al: "t_alive (threads (thread_exit n (worker proc (threads st ! n) st)) ! i)"
    have len: "i < length (threads st)" using i by (simp add: thread_exit_def worker_threads)
    have "i \<noteq> n" using al len by (auto simp add: thread_exit_def worker_threads)
    then have "t_alive (threads st ! i)" using al len by (simp add: thread_exit_def worker_threads)
    then have "worker_thread st = Some i" using finish.IH len by (simp add: single_slot_def)
    then show "worker_thread (thread_exit n (worker proc (threads st ! n) st)) = Some i"
      by (simp add: thread_exit_def worker_threads)
  qed
qed

lemma at_most_one_filter:
  "(\<forall>i j. i < length xs \<and> j < length xs \<and> P (xs ! i) \<and> P (xs ! j) \<longrightarrow> i = j) \<Longrightarrow>
   length (filter P xs) \<le> 1"
proof (induction xs)
  case Nil
  show ?case by simp
next
  case (Cons x xs)
  have tail: "\<forall>i j. i < length xs \<and> j < length xs \<and> P (xs ! i) \<and> P (xs ! j) \<longrightarrow> i = j"
  proof (intro allI impI)
    fix i j assume "i < length xs \<and> j < length xs \<and> P (xs ! i) \<and> P (xs ! j)"
    then have "Suc i < length (x # xs) \<and> Suc j < length (x # xs)
        \<and> P ((x # xs) ! Suc i) \<and> P ((x # xs) ! Suc j)" by simp
    then have "Suc i = Suc j" using Cons.prems by blast
    then show "i = j" by simp
  qed
  show ?case
  proof (cases "P x")
    case True
    have "filter P xs = []"
    proof (rule ccontr)
      assume "filter P xs \<noteq> []"
      then obtain y where "y \<in> set xs" "P y" by (auto simp: filter_empty_conv)
      then obtain k where "k < length xs" "xs ! k = y" by (auto simp: in_set_conv_nth)
      then have "0 < length (x # xs) \<and> Suc k < length (x # xs)
          \<and> P ((x # xs) ! 0) \<and> P ((x # xs) ! Suc k)" using True \<open>P y\<close> by simp
      then have "0 = Suc k" using Cons.prems by blast
      then show False by simp
    qed
    then show ?thesis using True by simp
  next
    case False
    then show ?thesis using Cons.IH [OF tail] by simp
  qed
qed

lemma reachable_one_alive: "reachable h st \<Longrightarrow> length (filter t_alive (threads st)) \<le> 1"
proof -
  assume "reachable h st"
  then have s: "single_slot st" by (rule reachable_single_slot)
  have "\<forall>i j. i < length (threads st) \<and> j < length (threads st)
        \<and> t_alive (threads st ! i) \<and> t_alive (threads st ! j) \<longrightarrow> i = j"
  proof (intro allI impI)
    fix i j assume a: "i < length (threads st) \<and> j < length (threads st)
        \<and> t_alive (threads st ! i) \<and> t_alive (threads st ! j)"
    then have "worker_thread st = Some i" "worker_thread st = Some j"
      using s by (simp_all add: single_slot_def)
    then show "i = j" by simp
  qed
  then show ?thesis by (rule at_most_one_filter)
qed

lemma demo_makedirs:
  "makedirs [(''/Users/me'', Directory)] ''/Users/me/MLX_Models''
     = ([(''/Users/me'', Directory), (''/Users/me/MLX_Models'', Directory)], None)"
  by (simp add: makedirs.simps makedirs_split_def posix_split_def mkdir_def path_exists_def
      path_isdir_def Let_def)

lemma strip_demo: "strip ''org/model-name'' = ''org/model-name''"
  by (simp add: strip_def lstrip_def rstrip_def py_isspace_def)

lemma demo_guards:
  "\<not> worker_alive demo_app" "strip (source_path demo_app) \<noteq> []"
  "\<not> endswith (strip (source_path demo_app)) ''.nemo''"
  "makedirs (fs demo_app) (output_base demo_app)
     = ([(''/Users/me'', Directory), (''/Users/me/MLX_Models'', Directory)], None)"
  by (simp_all add: demo_app_def initial_app_def worker_alive_def strip_demo endswith_def
      demo_makedirs path_join_def)

lemma demo_output_path:
  "generate_output_path demo_now demo_app ''org/model-name'' Hf = ''/Users/me/MLX_Models/org_model-name''"
  by (simp add: generate_output_path_def demo_app_def initial_app_def Let_def replace_char_def
      path_join_def endswith_def unique_path.simps path_exists_def)

lemma demo_type: "detect_source_type (fs demo_app) ''org/model-name'' = Hf"
  by (simp add: detect_source_type_def strip_demo demo_app_def initial_app_def path_exists_def)

lemma demo_build:
  "build_command demo_host demo_app ''org/model-name'' ''/Users/me/MLX_Models/org_model-name'' Hf
     = demo_command"
  by (simp add: build_command_def demo_host_def demo_app_def initial_app_def demo_command_def Let_def)

lemma demo_submit:
  "run_conversion demo_host demo_now demo_app =
     (Started demo_command,
      demo_app\<lparr>fs := [(''/Users/me'', Directory), (''/Users/me/MLX_Models'', Directory)],
        log_text := log_text demo_app
          @ [(''INFO'', separator),
             (''INFO'', ''Starting conversion: org/model-name -> /Users/me/MLX_Models/org_model-name''),
             (''INFO'', ''Command: '' @ render_command demo_command)],
        convert_btn := DISABLED, stop_btn := NORMAL, progress_running := True,
        worker_thread := Some 0,
        threads := [\<lparr>t_cmd = demo_command, t_env = [(''HOME'', ''/Users/me'')],
                    t_output_path = ''/Users/me/MLX_Models/org_model-name'', t_alive = True\<rparr>]\<rparr>)"
proof -
  have src: "strip (source_path demo_app) = ''org/model-name''"
    by (simp add: demo_app_def initial_app_def strip_demo)
  have misc: "\<not> dry_run demo_app" "\<not> hf_offline demo_app" "threads demo_app = []"
    "environ demo_host = [(''HOME'', ''/Users/me'')]"
    by (simp_all add: demo_app_def initial_app_def demo_host_def)
  show ?thesis
    unfolding run_conversion_accepted [OF demo_guards]
    by (simp add: src demo_type demo_output_path demo_build misc Let_def)
qed

lemma reachable_demo_app: "reachable demo_host demo_app"
proof -
  let ?i = "initial_app ''/Users/me'' [(''/Users/me'', Directory)]"
  have eq: "demo_app = ?i\<lparr>source_path := ''org/model-name'', output_base := output_base ?i,
      auto_timestamp := False, enable_quant := enable_quant ?i, q_bits := q_bits ?i,
      q_group := q_group ?i, dtype := dtype ?i, trust_remote := trust_remote ?i,
      hf_offline := hf_offline ?i, dry_run := dry_run ?i\<rparr>"
    by (simp add: demo_app_def initial_app_def)
  have r: "reachable demo_host ?i" by (rule reachable.start)
  show ?thesis by (subst eq) (rule reachable.edit [OF r])
qed

lemma reachable_demo_running: "reachable demo_host demo_running"
  unfolding demo_running_def by (rule reachable.convert [OF reachable_demo_app])

lemma demo_running_alive: "worker_alive demo_running"
  by (simp add: demo_running_def demo_submit worker_alive_def)

text \<open>
  Claim C2. While the worker thread the application refers to is alive, \<open>_run_conversion\<close>
  returns at its first test: it shows the Already Running warning and changes nothing
  else, so no output path is derived, no directory is created, no thread or process is
  started, and the running thread stays alive. In every reachable state at most one
  thread is alive, and a live thread is always the one the first test looks at, so a
  submission is rejected whenever any worker thread is alive.
\<close>

theorem already_running_rejected:
  "(worker_alive st \<longrightarrow>
      run_conversion h now st =
        (AlreadyRunning,
         st\<lparr>dialogs := dialogs st
                @ [Showwarning ''Already Running'' ''A conversion is already in progress.'']\<rparr>)
      \<and> fs (snd (run_conversion h now st)) = fs st
      \<and> threads (snd (run_conversion h now st)) = threads st
      \<and> current_process (snd (run_conversion h now st)) = current_process st
      \<and> log_text (snd (run_conversion h now st)) = log_text st
      \<and> worker_alive (snd (run_conversion h now st)))
   \<and> (reachable h st \<longrightarrow>
        length (filter t_alive (threads st)) \<le> 1
        \<and> ((\<exists>i<length (threads st). t_alive (threads st ! i)) \<longrightarrow>
             fst (run_conversion h now st) = AlreadyRunning))"
proof -
  have a: "worker_alive st \<Longrightarrow> worker_alive (st\<lparr>dialogs := d\<rparr>)" for d
    by (cases "worker_thread st") (simp_all add: worker_alive_def)
  have b: "reachable h st \<longrightarrow> length (filter t_alive (threads st)) \<le> 1"
    using reachable_one_alive by blast
  have c: "reachable h st \<longrightarrow> (\<exists>i<length (threads st). t_alive (threads st ! i)) \<longrightarrow>
      fst (run_conversion h now st) = AlreadyRunning"
  proof (intro impI)
    assume "reachable h st" and "\<exists>i<length (threads st). t_alive (threads st ! i)"
    then have "worker_alive st"
      using idle_no_thread_alive reachable_single_slot by blast
    then show "fst (run_conversion h now st) = AlreadyRunning"
      by (simp add: run_conversion_alive)
  qed
  from b c show ?thesis by (simp add: run_conversion_alive a)
qed

theorem already_running_rejected_witness:
  "worker_alive demo_running
   \<and> fst (run_conversion demo_host demo_now demo_running) = AlreadyRunning
   \<and> threads (snd (run_conversion demo_host demo_now demo_running)) = threads demo_running
   \<and> fs (snd (run_conversion demo_host demo_now demo_running)) = fs demo_running
   \<and> reachable demo_host demo_running
   \<and> length (filter t_alive (threads demo_running)) \<le> 1"
  using already_running_rejected [where st = demo_running and h = demo_host and now = demo_now]
    demo_running_alive reachable_demo_running
  by simp

section \<open>The worker's report\<close>

text \<open>
  Claim C1. For every task and every finite sequence of lines the process emits before
  its stream ends, the worker appends to the log exactly one entry per line, in emission
  order (each line with trailing whitespace removed), and after the last of them the
  completion report, once: the status entries, the restored buttons and progress bar,
  the cleared process reference and the closing separator.
\<close>

theorem worker_lines_then_done:
  "log_text (worker (Streams lines ending) thread st)
     = log_text st
       @ map (\<lambda>line. (''INFO'', rstrip line)) lines
       @ (case ending of
            Exits return_code \<Rightarrow>
              if return_code = 0
              then [(''SUCCESS'', ''SUCCESS: Conversion completed!''),
                    (''INFO'', ''Output saved to: '' @ t_output_path thread)]
              else [(''ERROR'', ''ERROR: Conversion failed (exit code ''
                                  @ show_int return_code @ '')'')]
          | Raises e \<Rightarrow> [(''ERROR'', ''ERROR: '' @ e)])
       @ [(''INFO'', separator)]
   \<and> progress_running (worker (Streams lines ending) thread st) = False
   \<and> convert_btn (worker (Streams lines ending) thread st) = NORMAL
   \<and> stop_btn (worker (Streams lines ending) thread st) = DISABLED
   \<and> current_process (worker (Streams lines ending) thread st) = None"
  by (simp add: worker_streams)

lemma rstrip_demo:
  "rstrip (''Loading\<newline>'') = ''Loading''" "rstrip (''Quantizing  \<newline>'') = ''Quantizing''"
  by (simp_all add: rstrip_def py_isspace_def)

theorem worker_lines_then_done_witness:
  "log_text (worker (Streams [''Loading\<newline>'', ''Quantizing  \<newline>''] (Exits 0))
       demo_thread demo_running)
     = log_text demo_running
       @ [(''INFO'', ''Loading''), (''INFO'', ''Quantizing''),
          (''SUCCESS'', ''SUCCESS: Conversion completed!''),
          (''INFO'', ''Output saved to: /Users/me/MLX_Models/org_model-name''),
          (''INFO'', separator)]"
  using worker_lines_then_done [where lines = "[''Loading\<newline>'', ''Quantizing  \<newline>'']"
      and ending = "Exits 0" and thread = demo_thread and st = demo_running]
  by (simp add: rstrip_demo demo_thread_def)

text \<open>
  Claim C3. When the process was created and has exited with return code \<open>rc\<close>, the
  entries the worker appends are the line entries, then the success pair when \<open>rc = 0\<close>
  and otherwise the single failure entry carrying \<open>rc\<close> in decimal, then the separator.
  The success entry is among them exactly when \<open>rc = 0\<close>, and the failure entry for a
  code \<open>n\<close> is among them exactly when \<open>rc\<close> is non-zero and equal to \<open>n\<close>: nothing else
  is read from the return code.
\<close>

theorem worker_exit_code_status:
  "(let new = drop (length (log_text st)) (log_text (worker (Streams lines (Exits rc)) thread st))
    in new = map (\<lambda>line. (''INFO'', rstrip line)) lines
             @ (if rc = 0
                then [(''SUCCESS'', ''SUCCESS: Conversion completed!''),
                      (''INFO'', ''Output saved to: '' @ t_output_path thread)]
                else [(''ERROR'', ''ERROR: Conversion failed (exit code '' @ show_int rc @ '')'')])
             @ [(''INFO'', separator)]
       \<and> ((''SUCCESS'', ''SUCCESS: Conversion completed!'') \<in> set new) = (rc = 0)
       \<and> ((''ERROR'', ''ERROR: Conversion failed (exit code '' @ show_int n @ '')'') \<in> set new)
           = (rc \<noteq> 0 \<and> n = rc))"
  by (auto simp add: Let_def worker_streams dest: show_int_inj)

lemma show_int_17: "show_int 17 = ''17''"
  by (simp add: show_int_def show_nat.simps digit_def)

theorem worker_exit_code_status_witness:
  "drop (length (log_text demo_running))
     (log_text (worker (Streams [''Loading\<newline>''] (Exits 17)) demo_thread demo_running))
     = [(''INFO'', ''Loading''), (''ERROR'', ''ERROR: Conversion failed (exit code 17)''),
        (''INFO'', separator)]
   \<and> (''SUCCESS'', ''SUCCESS: Conversion completed!'')
       \<notin> set (drop (length (log_text demo_running))
            (log_text (worker (Streams [''Loading\<newline>''] (Exits 17)) demo_thread demo_running)))"
  using worker_exit_code_status [where lines = "[''Loading\<newline>'']" and rc = 17 and n = 17
      and thread = demo_thread and st = demo_running]
  by (simp add: Let_def rstrip_demo show_int_17)

text \<open>
  Claim C4, as the code has it. The process is created inside the worker thread, so a
  submission that passes the checks returns normally with the buttons switched and the
  thread slot occupied, whatever happens to the process. When creating the process then
  raises, the worker appends no line entry; it appends the error entry with the text of
  the exception and runs the completion report once (buttons and progress bar restored,
  process reference cleared, closing separator). Once the thread has ended the slot is
  free again.
\<close>

theorem spawn_failure_reported_by_worker:
  assumes "run_conversion h now st = (Started cmd, st')"
  shows "worker_alive st'
    \<and> worker_thread st' = Some (length (threads st))
    \<and> length (threads st') = Suc (length (threads st))
    \<and> t_cmd (threads st' ! length (threads st)) = cmd
    \<and> convert_btn st' = DISABLED
    \<and> worker (SpawnFails e) (threads st' ! length (threads st)) st'
        = st'\<lparr>progress_running := False, convert_btn := NORMAL, stop_btn := DISABLED,
              current_process := None,
              log_text := log_text st' @ [(''ERROR'', ''ERROR: '' @ e), (''INFO'', separator)]\<rparr>
    \<and> \<not> worker_alive (thread_exit (length (threads st))
          (worker (SpawnFails e) (threads st' ! length (threads st)) st'))"
proof -
  from run_conversion_started [OF assms] obtain fs' where g: "\<not> worker_alive st"
    "strip (source_path st) \<noteq> []" "\<not> endswith (strip (source_path st)) ''.nemo''"
    "makedirs (fs st) (output_base st) = (fs', None)" "\<not> dry_run st" by blast
  from assms g(5) have st': "worker_thread st' = Some (length (threads st))"
    "length (threads st') = Suc (length (threads st))"
    "t_cmd (threads st' ! length (threads st)) = cmd"
    "t_alive (threads st' ! length (threads st))"
    "convert_btn st' = DISABLED"
    unfolding run_conversion_accepted [OF g(1-4)] by (auto simp add: Let_def)
  have alive: "worker_alive st'" using st' by (simp add: worker_alive_def)
  have dead: "\<not> worker_alive (thread_exit (length (threads st))
          (worker (SpawnFails e) (threads st' ! length (threads st)) st'))"
    using st' by (simp add: worker_alive_def thread_exit_def worker_spawn_fails)
  show ?thesis using alive dead st' by (simp add: worker_spawn_fails)
qed

theorem spawn_failure_reported_by_worker_witness:
  "run_conversion demo_host demo_now demo_app = (Started demo_command, demo_running)
   \<and> worker_alive demo_running
   \<and> log_text (worker (SpawnFails ''[Errno 13] Permission denied'') (threads demo_running ! 0) demo_running)
       = log_text demo_running
         @ [(''ERROR'', ''ERROR: [Errno 13] Permission denied''), (''INFO'', separator)]
   \<and> \<not> worker_alive (thread_exit 0
        (worker (SpawnFails ''[Errno 13] Permission denied'') (threads demo_running ! 0) demo_running))"
proof -
  have s: "run_conversion demo_host demo_now demo_app = (Started demo_command, demo_running)"
    by (simp add: demo_running_def demo_submit)
  have t: "threads demo_app = []" by (simp add: demo_app_def initial_app_def)
  show ?thesis
    using spawn_failure_reported_by_worker [OF s, of "''[Errno 13] Permission denied''"] s
    by (simp add: t worker_spawn_fails)
qed

text \<open>
  The claim as written fails on a submission whose process cannot be created: the call
  has returned with a started thread, not an error; the slot is occupied; and the
  completion report does occur, from the worker.
\<close>

theorem launch_error_counterexample:
  "fst (run_conversion demo_host demo_now demo_app) = Started demo_command
   \<and> worker_alive (snd (run_conversion demo_host demo_now demo_app))
   \<and> drop (length (log_text demo_running))
        (log_text (worker (SpawnFails ''[Errno 13] Permission denied'') demo_thread demo_running))
       = [(''ERROR'', ''ERROR: [Errno 13] Permission denied''), (''INFO'', separator)]
   \<and> convert_btn demo_running = DISABLED
   \<and> convert_btn (worker (SpawnFails ''[Errno 13] Permission denied'') demo_thread demo_running) = NORMAL"
  using demo_running_alive
  by (simp add: demo_running_def demo_submit worker_spawn_fails)

section \<open>Submissions that start no process\<close>

lemma run_conversion_dry:
  assumes "dry_run st"
  shows "(\<forall>cmd. fst (run_conversion h now st) \<noteq> Started cmd)
    \<and> threads (snd (run_conversion h now st)) = threads st
    \<and> worker_thread (snd (run_conversion h now st)) = worker_thread st
    \<and> current_process (snd (run_conversion h now st)) = current_process st
    \<and> convert_btn (snd (run_conversion h now st)) = convert_btn st
    \<and> stop_btn (snd (run_conversion h now st)) = stop_btn st
    \<and> progress_running (snd (run_conversion h now st)) = progress_running st"
proof (cases "worker_alive st")
  case True
  then show ?thesis by (simp add: run_conversion_alive)
next
  case idle: False
  show ?thesis
  proof (cases "strip (source_path st) = []")
    case True
    then show ?thesis using idle by (simp add: run_conversion_def)
  next
    case src: False
    show ?thesis
    proof (cases "endswith (strip (source_path st)) ''.nemo''")
      case True
      then show ?thesis using idle src by (simp add: run_conversion_nemo)
    next
      case nemo: False
      show ?thesis
      proof (cases "makedirs (fs st) (output_base st)")
        case (Pair fs' raised)
        show ?thesis
        proof (cases raised)
          case (Some e)
          then show ?thesis using Pair idle src nemo by (simp add: run_conversion_def Let_def)
        next
          case None
          with Pair have ok: "makedirs (fs st) (output_base st) = (fs', None)" by simp
          show ?thesis
            using assms by (simp add: run_conversion_accepted [OF idle src nemo ok] Let_def)
        qed
      qed
    qed
  qed
qed

text \<open>
  Claim C5. No dry-run call starts a thread or a process: the thread list, the thread
  reference, the process reference, the buttons and the progress bar are as before. A
  dry-run submission (no worker alive, a non-empty source that is not a \<open>.nemo\<close> file,
  the base directory in place or creatable) returns the built command and a state that
  differs from the old one only in the filesystem \<open>makedirs\<close> left and in five new log
  entries: the separator, the start line, the command line (once, as the arguments
  joined by blanks, each quoted the way \<open>shlex.quote\<close> does), and last the dry-run
  notice with the closing separator. No worker is alive afterwards. The sample runs spell
  the logged text out, for plain arguments and for a source that needs quoting.
\<close>

theorem dry_run_previews_only:
  assumes "dry_run st"
  shows "(\<forall>cmd. fst (run_conversion h now st) \<noteq> Started cmd)
    \<and> threads (snd (run_conversion h now st)) = threads st
    \<and> worker_thread (snd (run_conversion h now st)) = worker_thread st
    \<and> current_process (snd (run_conversion h now st)) = current_process st
    \<and> convert_btn (snd (run_conversion h now st)) = convert_btn st
    \<and> stop_btn (snd (run_conversion h now st)) = stop_btn st
    \<and> progress_running (snd (run_conversion h now st)) = progress_running st
    \<and> (\<not> worker_alive st \<and> strip (source_path st) \<noteq> []
         \<and> \<not> endswith (strip (source_path st)) ''.nemo''
         \<and> makedirs (fs st) (output_base st) = (fs', None) \<longrightarrow>
        (let source = strip (source_path st);
             ty = detect_source_type (fs st) source;
             output_path = generate_output_path now st source ty;
             cmd = build_command h st source output_path ty
         in run_conversion h now st =
              (DryRun cmd,
               st\<lparr>fs := fs',
                  log_text := log_text st
                    @ [(''INFO'', separator),
                       (''INFO'', ''Starting conversion: '' @ source @ '' -> '' @ output_path),
                       (''INFO'', ''Command: '' @ render_command cmd),
                       (''INFO'', ''DRY RUN - Not executing command''),
                       (''INFO'', separator)]\<rparr>))
        \<and> \<not> worker_alive (snd (run_conversion h now st)))"
proof -
  have idle: "\<not> worker_alive st \<Longrightarrow> \<not> worker_alive (st\<lparr>fs := a, log_text := b\<rparr>)" for a b
    by (cases "worker_thread st") (simp_all add: worker_alive_def)
  have "\<not> worker_alive st \<and> strip (source_path st) \<noteq> []
         \<and> \<not> endswith (strip (source_path st)) ''.nemo''
         \<and> makedirs (fs st) (output_base st) = (fs', None) \<longrightarrow>
        (let source = strip (source_path st);
             ty = detect_source_type (fs st) source;
             output_path = generate_output_path now st source ty;
             cmd = build_command h st source output_path ty
         in run_conversion h now st =
              (DryRun cmd,
               st\<lparr>fs := fs',
                  log_text := log_text st
                    @ [(''INFO'', separator),
                       (''INFO'', ''Starting conversion: '' @ source @ '' -> '' @ output_path),
                       (''INFO'', ''Command: '' @ render_command cmd),
                       (''INFO'', ''DRY RUN - Not executing command''),
                       (''INFO'', separator)]\<rparr>))
        \<and> \<not> worker_alive (snd (run_conversion h now st))"
  proof
    assume g: "\<not> worker_alive st \<and> strip (source_path st) \<noteq> []
         \<and> \<not> endswith (strip (source_path st)) ''.nemo''
         \<and> makedirs (fs st) (output_base st) = (fs', None)"
    then have g': "\<not> worker_alive st" "strip (source_path st) \<noteq> []"
      "\<not> endswith (strip (source_path st)) ''.nemo''"
      "makedirs (fs st) (output_base st) = (fs', None)" by simp_all
    show "(let source = strip (source_path st);
             ty = detect_source_type (fs st) source;
             output_path = generate_output_path now st source ty;
             cmd = build_command h st source output_path ty
         in run_conversion h now st =
              (DryRun cmd,
               st\<lparr>fs := fs',
                  log_text := log_text st
                    @ [(''INFO'', separator),
                       (''INFO'', ''Starting conversion: '' @ source @ '' -> '' @ output_path),
                       (''INFO'', ''Command: '' @ render_command cmd),
                       (''INFO'', ''DRY RUN - Not executing command''),
                       (''INFO'', separator)]\<rparr>))
        \<and> \<not> worker_alive (snd (run_conversion h now st))"
      unfolding run_conversion_accepted [OF g']
      using assms g'(1) by (simp add: Let_def idle)
  qed
  with run_conversion_dry [OF assms, of h now] show ?thesis by blast
qed

lemma demo_dry_guards:
  "dry_run demo_dry" "\<not> worker_alive demo_dry" "strip (source_path demo_dry) \<noteq> []"
  "\<not> endswith (strip (source_path demo_dry)) ''.nemo''"
  "makedirs (fs demo_dry) (output_base demo_dry)
     = ([(''/Users/me'', Directory), (''/Users/me/MLX_Models'', Directory)], None)"
  by (simp_all add: demo_dry_def demo_app_def initial_app_def worker_alive_def strip_demo endswith_def
      demo_makedirs path_join_def)

lemma demo_dry_values:
  "strip (source_path demo_dry) = ''org/model-name''"
  "detect_source_type (fs demo_dry) ''org/model-name'' = Hf"
  "generate_output_path demo_now demo_dry ''org/model-name'' Hf = ''/Users/me/MLX_Models/org_model-name''"
  "build_command demo_host demo_dry ''org/model-name'' ''/Users/me/MLX_Models/org_model-name'' Hf
     = demo_command"
  "threads demo_dry = []"
     apply (simp add: demo_dry_def demo_app_def initial_app_def strip_demo)
    apply (simp add: detect_source_type_def strip_demo demo_dry_def demo_app_def initial_app_def path_exists_def)
   apply (simp add: generate_output_path_def demo_dry_def demo_app_def initial_app_def Let_def replace_char_def
      path_join_def endswith_def unique_path.simps path_exists_def)
  apply (simp add: build_command_def demo_host_def demo_dry_def demo_app_def initial_app_def demo_command_def Let_def)
  apply (simp add: demo_dry_def demo_app_def initial_app_def)
  done

lemma demo_rendered:
  "render_command demo_command =
     ''/usr/bin/python3 -m mlx_lm convert --hf-path org/model-name --mlx-path /Users/me/MLX_Models/org_model-name --dtype float16 -q --q-bits 4 --q-group-size 64 --trust-remote-code''"
  by (simp add: render_command_def demo_command_def shlex_quote_def shlex_safe_def)

lemma demo_quoted_guards:
  "dry_run demo_quoted" "\<not> worker_alive demo_quoted" "strip (source_path demo_quoted) \<noteq> []"
  "\<not> endswith (strip (source_path demo_quoted)) ''.nemo''"
  "makedirs (fs demo_quoted) (output_base demo_quoted)
     = ([(''/Users/me'', Directory), (''/Users/me/MLX_Models'', Directory)], None)"
  by (simp_all add: demo_quoted_def demo_app_def initial_app_def worker_alive_def endswith_def
      demo_makedirs path_join_def strip_def lstrip_def rstrip_def py_isspace_def)

lemma demo_quoted_values:
  "strip (source_path demo_quoted) = ''my model'' @ [CHR 0x27] @ ''s''"
  "detect_source_type (fs demo_quoted) (''my model'' @ [CHR 0x27] @ ''s'') = Hf"
  "generate_output_path demo_now demo_quoted (''my model'' @ [CHR 0x27] @ ''s'') Hf
     = ''/Users/me/MLX_Models/my model'' @ [CHR 0x27] @ ''s''"
    apply (simp add: demo_quoted_def demo_app_def initial_app_def strip_def lstrip_def rstrip_def py_isspace_def)
   apply (simp add: detect_source_type_def demo_quoted_def demo_app_def initial_app_def path_exists_def
      strip_def lstrip_def rstrip_def py_isspace_def)
  apply (simp add: generate_output_path_def demo_quoted_def demo_app_def initial_app_def Let_def replace_char_def
      path_join_def endswith_def unique_path.simps path_exists_def)
  done

lemma demo_quoted_rendered:
  "render_command (build_command demo_host demo_quoted (''my model'' @ [CHR 0x27] @ ''s'')
      (''/Users/me/MLX_Models/my model'' @ [CHR 0x27] @ ''s'') Hf) =
     ''/usr/bin/python3 -m mlx_lm convert --hf-path '' @ [CHR 0x27] @ ''my model'' @ [CHR 0x27]
       @ [CHR 0x22] @ [CHR 0x27] @ [CHR 0x22] @ [CHR 0x27] @ ''s'' @ [CHR 0x27] @ '' --mlx-path ''
       @ [CHR 0x27] @ ''/Users/me/MLX_Models/my model'' @ [CHR 0x27] @ [CHR 0x22] @ [CHR 0x27]
       @ [CHR 0x22] @ [CHR 0x27] @ ''s'' @ [CHR 0x27]
       @ '' --dtype float16 -q --q-bits 4 --q-group-size 64 --trust-remote-code''"
  by (simp add: render_command_def build_command_def demo_host_def demo_quoted_def demo_app_def
      initial_app_def Let_def shlex_quote_def shlex_safe_def)

theorem dry_run_previews_only_witness:
  "dry_run demo_dry \<and> \<not> worker_alive demo_dry \<and> strip (source_path demo_dry) \<noteq> []
   \<and> \<not> endswith (strip (source_path demo_dry)) ''.nemo''
   \<and> makedirs (fs demo_dry) (output_base demo_dry)
       = ([(''/Users/me'', Directory), (''/Users/me/MLX_Models'', Directory)], None)
   \<and> run_conversion demo_host demo_now demo_dry =
       (DryRun [''/usr/bin/python3'', ''-m'', ''mlx_lm'', ''convert'', ''--hf-path'', ''org/model-name'',
                ''--mlx-path'', ''/Users/me/MLX_Models/org_model-name'', ''--dtype'', ''float16'',
                ''-q'', ''--q-bits'', ''4'', ''--q-group-size'', ''64'', ''--trust-remote-code''],
        demo_dry\<lparr>fs := [(''/Users/me'', Directory), (''/Users/me/MLX_Models'', Directory)],
          log_text := log_text demo_dry
            @ [(''INFO'', ''================================================================================''),
               (''INFO'', ''Starting conversion: org/model-name -> /Users/me/MLX_Models/org_model-name''),
               (''INFO'', ''Command: /usr/bin/python3 -m mlx_lm convert --hf-path org/model-name --mlx-path /Users/me/MLX_Models/org_model-name --dtype float16 -q --q-bits 4 --q-group-size 64 --trust-remote-code''),
               (''INFO'', ''DRY RUN - Not executing command''),
               (''INFO'', ''================================================================================'')]\<rparr>)
   \<and> threads (snd (run_conversion demo_host demo_now demo_dry)) = []
   \<and> dry_run demo_quoted \<and> \<not> worker_alive demo_quoted \<and> strip (source_path demo_quoted) \<noteq> []
   \<and> \<not> endswith (strip (source_path demo_quoted)) ''.nemo''
   \<and> makedirs (fs demo_quoted) (output_base demo_quoted)
       = ([(''/Users/me'', Directory), (''/Users/me/MLX_Models'', Directory)], None)
   \<and> drop (length (log_text demo_quoted)) (log_text (snd (run_conversion demo_host demo_now demo_quoted)))
       = [(''INFO'', ''================================================================================''),
          (''INFO'', ''Starting conversion: my model'' @ [CHR 0x27] @ ''s -> /Users/me/MLX_Models/my model''
                     @ [CHR 0x27] @ ''s''),
          (''INFO'', ''Command: /usr/bin/python3 -m mlx_lm convert --hf-path '' @ [CHR 0x27] @ ''my model''
                     @ [CHR 0x27] @ [CHR 0x22] @ [CHR 0x27] @ [CHR 0x22] @ [CHR 0x27] @ ''s'' @ [CHR 0x27]
                     @ '' --mlx-path '' @ [CHR 0x27] @ ''/Users/me/MLX_Models/my model'' @ [CHR 0x27]
                     @ [CHR 0x22] @ [CHR 0x27] @ [CHR 0x22] @ [CHR 0x27] @ ''s'' @ [CHR 0x27]
                     @ '' --dtype float16 -q --q-bits 4 --q-group-size 64 --trust-remote-code''),
          (''INFO'', ''DRY RUN - Not executing command''),
          (''INFO'', ''================================================================================'')]"
proof -
  have sep: "separator = ''================================================================================''"
    unfolding separator_def by code_simp
  have a: "run_conversion demo_host demo_now demo_dry =
       (DryRun [''/usr/bin/python3'', ''-m'', ''mlx_lm'', ''convert'', ''--hf-path'', ''org/model-name'',
                ''--mlx-path'', ''/Users/me/MLX_Models/org_model-name'', ''--dtype'', ''float16'',
                ''-q'', ''--q-bits'', ''4'', ''--q-group-size'', ''64'', ''--trust-remote-code''],
        demo_dry\<lparr>fs := [(''/Users/me'', Directory), (''/Users/me/MLX_Models'', Directory)],
          log_text := log_text demo_dry
            @ [(''INFO'', ''================================================================================''),
               (''INFO'', ''Starting conversion: org/model-name -> /Users/me/MLX_Models/org_model-name''),
               (''INFO'', ''Command: /usr/bin/python3 -m mlx_lm convert --hf-path org/model-name --mlx-path /Users/me/MLX_Models/org_model-name --dtype float16 -q --q-bits 4 --q-group-size 64 --trust-remote-code''),
               (''INFO'', ''DRY RUN - Not executing command''),
               (''INFO'', ''================================================================================'')]\<rparr>)
     \<and> threads (snd (run_conversion demo_host demo_now demo_dry)) = []"
    using dry_run_previews_only [OF demo_dry_guards(1), where h = demo_host and now = demo_now
        and fs' = "[(''/Users/me'', Directory), (''/Users/me/MLX_Models'', Directory)]"]
      demo_dry_guards
    by (simp add: demo_dry_values Let_def demo_rendered sep) (simp add: demo_command_def)
  have b: "drop (length (log_text demo_quoted)) (log_text (snd (run_conversion demo_host demo_now demo_quoted)))
       = [(''INFO'', ''================================================================================''),
          (''INFO'', ''Starting conversion: my model'' @ [CHR 0x27] @ ''s -> /Users/me/MLX_Models/my model''
                     @ [CHR 0x27] @ ''s''),
          (''INFO'', ''Command: /usr/bin/python3 -m mlx_lm convert --hf-path '' @ [CHR 0x27] @ ''my model''
                     @ [CHR 0x27] @ [CHR 0x22] @ [CHR 0x27] @ [CHR 0x22] @ [CHR 0x27] @ ''s'' @ [CHR 0x27]
                     @ '' --mlx-path '' @ [CHR 0x27] @ ''/Users/me/MLX_Models/my model'' @ [CHR 0x27]
                     @ [CHR 0x22] @ [CHR 0x27] @ [CHR 0x22] @ [CHR 0x27] @ ''s'' @ [CHR 0x27]
                     @ '' --dtype float16 -q --q-bits 4 --q-group-size 64 --trust-remote-code''),
          (''INFO'', ''DRY RUN - Not executing command''),
          (''INFO'', ''================================================================================'')]"
    using dry_run_previews_only [OF demo_quoted_guards(1), where h = demo_host and now = demo_now
        and fs' = "[(''/Users/me'', Directory), (''/Users/me/MLX_Models'', Directory)]"]
      demo_quoted_guards demo_quoted_rendered [simplified]
    by (simp add: demo_quoted_values [simplified] Let_def sep)
  from a b demo_dry_guards demo_quoted_guards show ?thesis by blast
qed

text \<open>
  Claim C9. For every source ending in \<open>.nemo\<close>, neither handler builds a command.
  \<open>_preview_command\<close> logs the conversion instructions and returns; \<open>_run_conversion\<close>,
  with no worker alive, shows the NeMo notice, logs the same instructions and returns,
  and with a worker alive it is rejected as already running. In every case the call
  returns no command, starts no thread and no process, and leaves the filesystem as it
  was.
\<close>

theorem nemo_source_refused:
  assumes "endswith (source_path st) ''.nemo''"
  shows "preview_command h now st = (NeMoFiles, st\<lparr>log_text := log_text st @ nemo_instructions\<rparr>)
    \<and> (\<not> worker_alive st \<longrightarrow>
         run_conversion h now st =
           (NeMoFiles,
            st\<lparr>dialogs := dialogs st
                   @ [Showinfo ''NeMo Files''
                        (''NeMo files must be converted to HuggingFace format first.''
                         @ [CHR 0x0A] @ ''See the log for instructions.'')],
               log_text := log_text st @ nemo_instructions\<rparr>))
    \<and> (worker_alive st \<longrightarrow> fst (run_conversion h now st) = AlreadyRunning)
    \<and> (\<forall>cmd. fst (run_conversion h now st) \<noteq> Started cmd
            \<and> fst (run_conversion h now st) \<noteq> DryRun cmd
            \<and> fst (run_conversion h now st) \<noteq> Previewed cmd
            \<and> fst (preview_command h now st) \<noteq> Previewed cmd)
    \<and> threads (snd (run_conversion h now st)) = threads st
    \<and> worker_thread (snd (run_conversion h now st)) = worker_thread st
    \<and> current_process (snd (run_conversion h now st)) = current_process st
    \<and> fs (snd (run_conversion h now st)) = fs st"
proof -
  from endswith_nemo_strip [OF assms]
  have g: "strip (source_path st) \<noteq> []" "endswith (strip (source_path st)) ''.nemo''" by simp_all
  have p: "preview_command h now st = (NeMoFiles, st\<lparr>log_text := log_text st @ nemo_instructions\<rparr>)"
    by (rule preview_command_nemo [OF g])
  show ?thesis
  proof (cases "worker_alive st")
    case True
    then show ?thesis by (simp add: p run_conversion_alive)
  next
    case False
    then show ?thesis by (simp add: p run_conversion_nemo [OF False g])
  qed
qed

theorem nemo_source_refused_witness:
  "endswith (source_path demo_nemo) ''.nemo''
   \<and> \<not> worker_alive demo_nemo
   \<and> fst (run_conversion demo_host demo_now demo_nemo) = NeMoFiles
   \<and> log_text (snd (run_conversion demo_host demo_now demo_nemo)) = log_text demo_nemo @ nemo_instructions
   \<and> threads (snd (run_conversion demo_host demo_now demo_nemo)) = []
   \<and> fs (snd (run_conversion demo_host demo_now demo_nemo)) = fs demo_nemo
   \<and> fst (preview_command demo_host demo_now demo_nemo) = NeMoFiles"
proof -
  have a: "endswith (source_path demo_nemo) ''.nemo''"
    by (simp add: demo_nemo_def demo_app_def initial_app_def endswith_def)
  have b: "\<not> worker_alive demo_nemo" "threads demo_nemo = []"
    by (simp_all add: demo_nemo_def demo_app_def initial_app_def worker_alive_def)
  show ?thesis
    using nemo_source_refused [OF a, of demo_host demo_now] a b by simp
qed

end
